theory Spec2Isabelle
  imports Main
begin

text \<open>
  A model of the After Effects project browser of \<^verbatim>\<open>py_ae.py\<close> and of its
  predecessor \<^verbatim>\<open>py_ae_v3.py\<close>. Both programs are a Qt widget whose slots read
  and write the file system, the persistent settings, two tables and a few lists. The model
  makes that state a record, \<open>pipeline\<close>, that every slot takes and returns; what
  the user answers in a dialog is an argument of the slot; an exception is the outcome
  \<open>Raised\<close>, returned with the state the slot had reached when it was raised.
  Where the two files define a method of the same name differently, the constants carry the
  suffixes \<open>_v3\<close> and \<open>_py_ae\<close>.
\<close>

section \<open>Strings\<close>

text \<open>
  A Python \<open>str\<close> is a \<open>string\<close>. Characters are the 256 values of
  \<open>char\<close>: code points above 255 are outside the model.
  \<open>join_with sep xs\<close> is \<^verbatim>\<open>sep.join(xs)\<close>.
\<close>

definition dquote :: char where "dquote = CHR 0x22"

definition backslash :: char where "backslash = CHR 0x5C"

fun join_with :: "string \<Rightarrow> string list \<Rightarrow> string" where
  "join_with sep [] = []"
| "join_with sep [x] = x"
| "join_with sep (x # y # ys) = x @ sep @ join_with sep (y # ys)"

section \<open>JSON\<close>

text \<open>
  The values \<^verbatim>\<open>json.loads\<close> produces and \<^verbatim>\<open>json.dumps\<close>
  accepts. A Python \<open>dict\<close> is the list of its items in insertion order, with
  distinct keys (\<open>wf_json\<close> below). Numbers are integers: the model has no floats.
  The exceptions of the whole program are one datatype. \<open>OutsideModel\<close> is no
  exception of Python: it is the answer of \<open>json_loads\<close> to a text whose value the
  model does not have, and no statement below speaks about a run that meets it.
\<close>

datatype json = JNull | JBool bool | JNum int | JStr string
  | JArr "json list" | JObj "(string \<times> json) list"

datatype error = JSONDecodeError | RecursionError | OutsideModel
  | TypeError | KeyError | AttributeError | IndexError
  | FileNotFoundError | OSError | FileExistsError | CalledProcessError

subsection \<open>json.dumps\<close>

text \<open>
  \<^verbatim>\<open>json.dumps\<close> with its defaults: items separated by a comma and a
  space, keys from values by a colon and a space, and every character outside printable
  ASCII escaped (\<^verbatim>\<open>ensure_ascii=True\<close>).
\<close>

definition hex_digit :: "nat \<Rightarrow> char" where
  "hex_digit n = (if n < 10 then char_of (48 + n) else char_of (87 + n))"

definition escape_char :: "char \<Rightarrow> string" where
  "escape_char c =
     (if c = dquote then [backslash, dquote]
      else if c = backslash then [backslash, backslash]
      else if c = CHR 0x0A then [backslash, CHR ''n'']
      else if c = CHR 0x0D then [backslash, CHR ''r'']
      else if c = CHR 0x09 then [backslash, CHR ''t'']
      else if c = CHR 0x0C then [backslash, CHR ''f'']
      else if c = CHR 0x08 then [backslash, CHR ''b'']
      else if 32 \<le> (of_char c :: nat) \<and> (of_char c :: nat) \<le> 126 then [c]
      else [backslash, CHR ''u'', CHR ''0'', CHR ''0'',
            hex_digit ((of_char c :: nat) div 16), hex_digit ((of_char c :: nat) mod 16)])"

definition encode_string :: "string \<Rightarrow> string" where
  "encode_string s = dquote # concat (map escape_char s) @ [dquote]"

fun str_nat :: "nat \<Rightarrow> string" where
  "str_nat n = (if n < 10 then [char_of (48 + n)]
                else str_nat (n div 10) @ [char_of (48 + n mod 10)])"

declare str_nat.simps [simp del]

definition str_int :: "int \<Rightarrow> string" where
  "str_int i = (if i < 0 then CHR ''-'' # str_nat (nat (- i)) else str_nat (nat i))"

fun json_dumps :: "json \<Rightarrow> string" where
  "json_dumps JNull = ''null''"
| "json_dumps (JBool b) = (if b then ''true'' else ''false'')"
| "json_dumps (JNum i) = str_int i"
| "json_dumps (JStr s) = encode_string s"
| "json_dumps (JArr vs) = ''['' @ join_with '', '' (map json_dumps vs) @ '']''"
| "json_dumps (JObj kvs) =
     ''{'' @ join_with '', '' (map (\<lambda>(k, v). encode_string k @ '': '' @ json_dumps v) kvs) @ ''}''"

subsection \<open>json.loads\<close>

text \<open>
  \<^verbatim>\<open>json.loads\<close>: a recursive-descent parser of the JSON grammar that reads
  from left to right as the decoder does, so that it reports what stops the decoder first.
  Opening an array or an object takes one level of the interpreter's recursion limit:
  \<open>depth\<close> is the number of levels left when \<^verbatim>\<open>json.loads\<close> is called,
  and an array or object that opens with none left raises \<open>RecursionError\<close>.
  A number is read as the decoder's pattern reads it: an integer part, then a fraction only if
  a digit follows the point, then an exponent only if it has a digit.

  The answer is \<open>OutsideModel\<close> when the decoder would go on past a float (a number
  with a fraction or an exponent, \<^verbatim>\<open>NaN\<close>, \<^verbatim>\<open>Infinity\<close>,
  \<^verbatim>\<open>-Infinity\<close>), past an escape \<^verbatim>\<open>\uXXXX\<close> above
  \<^verbatim>\<open>00ff\<close>, or past an integer of more than 4300 digits, which an interpreter
  with the default limit on integer conversion refuses with \<open>ValueError\<close> and an
  earlier one reads. The fuel makes the recursion terminate; \<open>json_loads\<close> gives twice
  the length of the text and one more, and a parser that runs out of it answers
  \<open>OutsideModel\<close> as well. A repeated key keeps its first position and its last
  value, as a Python \<open>dict\<close> does.
\<close>

definition is_ws :: "char \<Rightarrow> bool" where
  "is_ws c = (c = CHR '' '' \<or> c = CHR 0x09 \<or> c = CHR 0x0A \<or> c = CHR 0x0D)"

fun skip_ws :: "string \<Rightarrow> string" where
  "skip_ws [] = []"
| "skip_ws (c # cs) = (if is_ws c then skip_ws cs else c # cs)"

definition hex_val :: "char \<Rightarrow> nat option" where
  "hex_val c =
     (let k = (of_char c :: nat) in
      if 48 \<le> k \<and> k \<le> 57 then Some (k - 48)
      else if 97 \<le> k \<and> k \<le> 102 then Some (k - 87)
      else if 65 \<le> k \<and> k \<le> 70 then Some (k - 55)
      else None)"

definition hex4 :: "char \<Rightarrow> char \<Rightarrow> char \<Rightarrow> char \<Rightarrow> nat option" where
  "hex4 a b c d =
     (case (hex_val a, hex_val b, hex_val c, hex_val d) of
        (Some w, Some x, Some y, Some z) \<Rightarrow> Some (((w * 16 + x) * 16 + y) * 16 + z)
      | _ \<Rightarrow> None)"

definition unescape :: "char \<Rightarrow> char option" where
  "unescape e =
     (if e = dquote then Some dquote
      else if e = backslash then Some backslash
      else if e = CHR ''/'' then Some (CHR ''/'')
      else if e = CHR ''b'' then Some (CHR 0x08)
      else if e = CHR ''f'' then Some (CHR 0x0C)
      else if e = CHR ''n'' then Some (CHR 0x0A)
      else if e = CHR ''r'' then Some (CHR 0x0D)
      else if e = CHR ''t'' then Some (CHR 0x09)
      else None)"

definition cons_result :: "char \<Rightarrow> error + string \<times> string \<Rightarrow> error + string \<times> string" where
  "cons_result c r = (case r of Inl e \<Rightarrow> Inl e | Inr (t, rest) \<Rightarrow> Inr (c # t, rest))"

fun scanstring :: "string \<Rightarrow> error + string \<times> string" where
  "scanstring [] = Inl JSONDecodeError"
| "scanstring (c # cs) =
     (if c = dquote then Inr ([], cs)
      else if c = backslash then
        (case cs of
           [] \<Rightarrow> Inl JSONDecodeError
         | e # cs1 \<Rightarrow>
             if e = CHR ''u'' then
               (case cs1 of
                  h1 # h2 # h3 # h4 # cs2 \<Rightarrow>
                    (case hex4 h1 h2 h3 h4 of
                       None \<Rightarrow> Inl JSONDecodeError
                     | Some k \<Rightarrow>
                         if k < 256 then cons_result (char_of k) (scanstring cs2)
                         else Inl OutsideModel)
                | _ \<Rightarrow> Inl JSONDecodeError)
             else
               (case unescape e of
                  None \<Rightarrow> Inl JSONDecodeError
                | Some ch \<Rightarrow> cons_result ch (scanstring cs1)))
      else if (of_char c :: nat) < 32 then Inl JSONDecodeError
      else cons_result c (scanstring cs))"

definition is_digit :: "char \<Rightarrow> bool" where
  "is_digit c = (48 \<le> (of_char c :: nat) \<and> (of_char c :: nat) \<le> 57)"

definition digit_val :: "char \<Rightarrow> nat" where
  "digit_val c = of_char c - 48"

definition float_tail :: "string \<Rightarrow> bool" where
  "float_tail r =
     (case r of
        c1 # c2 # r2 \<Rightarrow>
          (c1 = CHR ''.'' \<and> is_digit c2)
          \<or> ((c1 = CHR ''e'' \<or> c1 = CHR ''E'')
              \<and> (is_digit c2
                  \<or> ((c2 = CHR ''+'' \<or> c2 = CHR ''-'')
                      \<and> (case r2 of [] \<Rightarrow> False | c3 # r3 \<Rightarrow> is_digit c3))))
      | _ \<Rightarrow> False)"

definition int_max_str_digits :: nat where
  "int_max_str_digits = 4300"

definition int_literal :: "string \<Rightarrow> string \<Rightarrow> error + nat \<times> string" where
  "int_literal digits r =
     (if float_tail r \<or> int_max_str_digits < length digits then Inl OutsideModel
      else Inr (foldl (\<lambda>a d. 10 * a + digit_val d) 0 digits, r))"

definition scan_nat :: "string \<Rightarrow> error + nat \<times> string" where
  "scan_nat s =
     (case s of
        [] \<Rightarrow> Inl JSONDecodeError
      | c # cs \<Rightarrow>
          if \<not> is_digit c then Inl JSONDecodeError
          else if c = CHR ''0'' then int_literal [c] cs
          else int_literal (takeWhile is_digit s) (dropWhile is_digit s))"

fun strip_prefix :: "string \<Rightarrow> string \<Rightarrow> string option" where
  "strip_prefix [] s = Some s"
| "strip_prefix (p # ps) [] = None"
| "strip_prefix (p # ps) (c # cs) = (if p = c then strip_prefix ps cs else None)"

definition scan_int :: "string \<Rightarrow> error + int \<times> string" where
  "scan_int s =
     (case s of
        [] \<Rightarrow> Inl JSONDecodeError
      | c # cs \<Rightarrow>
          if c = CHR ''-'' then
            (if strip_prefix ''Infinity'' cs \<noteq> None then Inl OutsideModel
             else (case scan_nat cs of Inl e \<Rightarrow> Inl e | Inr (n, r) \<Rightarrow> Inr (- int n, r)))
          else (case scan_nat s of Inl e \<Rightarrow> Inl e | Inr (n, r) \<Rightarrow> Inr (int n, r)))"

definition scan_word :: "string \<Rightarrow> json \<Rightarrow> string \<Rightarrow> error + json \<times> string" where
  "scan_word name v cs =
     (case strip_prefix name cs of None \<Rightarrow> Inl JSONDecodeError | Some r \<Rightarrow> Inr (v, r))"

fun dict_set :: "string \<Rightarrow> 'v \<Rightarrow> (string \<times> 'v) list \<Rightarrow> (string \<times> 'v) list" where
  "dict_set k v [] = [(k, v)]"
| "dict_set k v ((k', v') # d) = (if k' = k then (k, v) # d else (k', v') # dict_set k v d)"

fun dict_get :: "(string \<times> 'v) list \<Rightarrow> string \<Rightarrow> 'v option" where
  "dict_get [] k = None"
| "dict_get ((k', v) # d) k = (if k' = k then Some v else dict_get d k)"

fun parse_value :: "nat \<Rightarrow> nat \<Rightarrow> string \<Rightarrow> error + json \<times> string"
  and parse_items :: "nat \<Rightarrow> nat \<Rightarrow> string \<Rightarrow> error + json list \<times> string"
  and parse_pairs :: "nat \<Rightarrow> nat \<Rightarrow> string \<Rightarrow> error + (string \<times> json) list \<times> string"
where
  "parse_value 0 depth s = Inl OutsideModel"
| "parse_value (Suc n) depth s =
     (case s of
        [] \<Rightarrow> Inl JSONDecodeError
      | c # cs \<Rightarrow>
          if c = dquote then
            (case scanstring cs of Inl e \<Rightarrow> Inl e | Inr (t, r) \<Rightarrow> Inr (JStr t, r))
          else if c = CHR ''['' then
            (if depth = 0 then Inl RecursionError
             else
               (case skip_ws cs of
                  [] \<Rightarrow> Inl JSONDecodeError
                | d # r \<Rightarrow>
                    if d = CHR '']'' then Inr (JArr [], r)
                    else (case parse_items n (depth - 1) (d # r) of
                            Inl e \<Rightarrow> Inl e
                          | Inr (vs, r') \<Rightarrow> Inr (JArr vs, r'))))
          else if c = CHR ''{'' then
            (if depth = 0 then Inl RecursionError
             else
               (case skip_ws cs of
                  [] \<Rightarrow> Inl JSONDecodeError
                | d # r \<Rightarrow>
                    if d = CHR ''}'' then Inr (JObj [], r)
                    else (case parse_pairs n (depth - 1) (d # r) of
                            Inl e \<Rightarrow> Inl e
                          | Inr (kvs, r') \<Rightarrow>
                              Inr (JObj (foldl (\<lambda>d (k, v). dict_set k v d) [] kvs), r'))))
          else if c = CHR ''n'' then scan_word ''ull'' JNull cs
          else if c = CHR ''t'' then scan_word ''rue'' (JBool True) cs
          else if c = CHR ''f'' then scan_word ''alse'' (JBool False) cs
          else if c = CHR ''N'' \<and> strip_prefix ''aN'' cs \<noteq> None then Inl OutsideModel
          else if c = CHR ''I'' \<and> strip_prefix ''nfinity'' cs \<noteq> None then Inl OutsideModel
          else (case scan_int s of Inl e \<Rightarrow> Inl e | Inr (i, r) \<Rightarrow> Inr (JNum i, r)))"
| "parse_items 0 depth s = Inl OutsideModel"
| "parse_items (Suc n) depth s =
     (case parse_value n depth s of
        Inl e \<Rightarrow> Inl e
      | Inr (v, r) \<Rightarrow>
          (case skip_ws r of
             [] \<Rightarrow> Inl JSONDecodeError
           | d # r' \<Rightarrow>
               if d = CHR '','' then
                 (case parse_items n depth (skip_ws r') of
                    Inl e \<Rightarrow> Inl e
                  | Inr (vs, r'') \<Rightarrow> Inr (v # vs, r''))
               else if d = CHR '']'' then Inr ([v], r')
               else Inl JSONDecodeError))"
| "parse_pairs 0 depth s = Inl OutsideModel"
| "parse_pairs (Suc n) depth s =
     (case s of
        [] \<Rightarrow> Inl JSONDecodeError
      | c # cs \<Rightarrow>
          if c \<noteq> dquote then Inl JSONDecodeError
          else
            (case scanstring cs of
               Inl e \<Rightarrow> Inl e
             | Inr (k, r) \<Rightarrow>
                 (case skip_ws r of
                    [] \<Rightarrow> Inl JSONDecodeError
                  | d # r1 \<Rightarrow>
                      if d \<noteq> CHR '':'' then Inl JSONDecodeError
                      else
                        (case parse_value n depth (skip_ws r1) of
                           Inl e \<Rightarrow> Inl e
                         | Inr (v, r2) \<Rightarrow>
                             (case skip_ws r2 of
                                [] \<Rightarrow> Inl JSONDecodeError
                              | e # r3 \<Rightarrow>
                                  if e = CHR '','' then
                                    (case parse_pairs n depth (skip_ws r3) of
                                       Inl e \<Rightarrow> Inl e
                                     | Inr (kvs, r4) \<Rightarrow> Inr ((k, v) # kvs, r4))
                                  else if e = CHR ''}'' then Inr ([(k, v)], r3)
                                  else Inl JSONDecodeError)))))"

definition json_loads :: "nat \<Rightarrow> string \<Rightarrow> error + json" where
  "json_loads limit s =
     (case parse_value (2 * length s + 1) limit (skip_ws s) of
        Inl e \<Rightarrow> Inl e
      | Inr (v, r) \<Rightarrow> if skip_ws r = [] then Inr v else Inl JSONDecodeError)"

section \<open>Python strings\<close>

text \<open>
  \<^verbatim>\<open>str.lower\<close> on ASCII letters, the substring test
  \<^verbatim>\<open>sub in s\<close> and \<^verbatim>\<open>str.replace\<close>, which replaces
  the occurrences of the pattern from left to right without overlap.
\<close>

definition lower_char :: "char \<Rightarrow> char" where
  "lower_char c = (if 65 \<le> (of_char c :: nat) \<and> (of_char c :: nat) \<le> 90
                   then char_of ((of_char c :: nat) + 32) else c)"

definition lower :: "string \<Rightarrow> string" where
  "lower s = map lower_char s"

fun contains :: "string \<Rightarrow> string \<Rightarrow> bool" where
  "contains sub [] = (sub = [])"
| "contains sub (c # cs) = (strip_prefix sub (c # cs) \<noteq> None \<or> contains sub cs)"

lemma strip_prefix_length: "strip_prefix p s = Some r \<Longrightarrow> length s = length p + length r"
  by (induction p s rule: strip_prefix.induct) (auto split: if_splits)

function str_replace :: "string \<Rightarrow> string \<Rightarrow> string \<Rightarrow> string" where
  "str_replace old new s =
     (if old = [] then new @ concat (map (\<lambda>c. c # new) s)
      else (case s of
              [] \<Rightarrow> []
            | c # cs \<Rightarrow>
                (case strip_prefix old s of
                   Some rest \<Rightarrow> new @ str_replace old new rest
                 | None \<Rightarrow> c # str_replace old new cs)))"
  by pat_completeness auto
termination
  by (relation "measure (\<lambda>(old, new, s). length s)") (auto dest: strip_prefix_length)

declare str_replace.simps [simp del]

section \<open>The operating system\<close>

text \<open>
  The file system maps a path to a file (its text and modification time) or a directory.
  A path is the string it is written as: \<open>Path\<close> only turns the empty string into
  \<^verbatim>\<open>.\<close>, as \<^verbatim>\<open>pathlib.Path('')\<close> does, and no other
  spelling is normalised (two spellings of one file are two paths of the model).
  \<open>Path_join\<close> writes a forward slash and \<open>os_path_join\<close> a backslash;
  both separators are recognised when a path is split. Permissions are not modelled: of the
  ways a file operation can fail, the model has the missing file, the missing parent
  directory and the directory standing where a file is expected.
  \<open>format_time\<close> stands for \<^verbatim>\<open>strftime('%Y-%m-%d %H:%M:%S')\<close>:
  the calendar is not modelled, and a time is written as its number of seconds.
\<close>

datatype node = File (contents: string) (mtime: nat) | Dir (mtime: nat)

type_synonym filesystem = "string \<Rightarrow> node option"

definition path_exists :: "filesystem \<Rightarrow> string \<Rightarrow> bool" where
  "path_exists f p = (f p \<noteq> None)"

definition isfile :: "filesystem \<Rightarrow> string \<Rightarrow> bool" where
  "isfile f p = (case f p of Some (File c t) \<Rightarrow> True | _ \<Rightarrow> False)"

definition isdir :: "filesystem \<Rightarrow> string \<Rightarrow> bool" where
  "isdir f p = (case f p of Some (Dir t) \<Rightarrow> True | _ \<Rightarrow> False)"

definition is_sep :: "char \<Rightarrow> bool" where
  "is_sep c = (c = CHR ''/'' \<or> c = backslash)"

definition basename :: "string \<Rightarrow> string" where
  "basename p = rev (takeWhile (\<lambda>c. \<not> is_sep c) (rev p))"

definition dirname :: "string \<Rightarrow> string" where
  "dirname p = rev (drop 1 (dropWhile (\<lambda>c. \<not> is_sep c) (rev p)))"

definition os_path_join :: "string \<Rightarrow> string \<Rightarrow> string" where
  "os_path_join a b = (if a = [] \<or> is_sep (last a) then a @ b else a @ backslash # b)"





definition Path :: "string \<Rightarrow> string" where
  "Path s = (if s = [] then ''.'' else s)"

definition dir_ok :: "filesystem \<Rightarrow> string \<Rightarrow> bool" where
  "dir_ok f d = isdir f (Path d)"

definition write_file :: "filesystem \<Rightarrow> nat \<Rightarrow> string \<Rightarrow> string \<Rightarrow> error + filesystem" where
  "write_file f now p text =
     (if isdir f p then Inl OSError
      else if \<not> dir_ok f (dirname p) then Inl FileNotFoundError
      else Inr (f(p \<mapsto> File text now)))"

definition copyfile :: "filesystem \<Rightarrow> nat \<Rightarrow> string \<Rightarrow> string \<Rightarrow> error + filesystem" where
  "copyfile f now src dst =
     (case f src of
        None \<Rightarrow> Inl FileNotFoundError
      | Some (Dir t) \<Rightarrow> Inl OSError
      | Some (File text t) \<Rightarrow> if src = dst then Inl OSError else write_file f now dst text)"

definition shutil_copy :: "filesystem \<Rightarrow> nat \<Rightarrow> string \<Rightarrow> string \<Rightarrow> error + string \<times> filesystem" where
  "shutil_copy f now src dst =
     (let target = (if isdir f dst then os_path_join dst (basename src) else dst) in
      case copyfile f now src target of
        Inl e \<Rightarrow> Inl e
      | Inr f' \<Rightarrow> Inr (target, f'))"

definition os_remove :: "filesystem \<Rightarrow> string \<Rightarrow> error + filesystem" where
  "os_remove f p =
     (case f p of
        None \<Rightarrow> Inl FileNotFoundError
      | Some (Dir t) \<Rightarrow> Inl OSError
      | Some (File text t) \<Rightarrow> Inr (f(p := None)))"



definition format_time :: "nat \<Rightarrow> string" where
  "format_time t = str_nat t"

section \<open>The application state\<close>

text \<open>
  A table is the list of its rows; a row is the list of its cells (\<open>None\<close> for a
  cell without an item, such as the column that holds the action buttons) and whether it is
  hidden. Qt's sorting of the displayed rows and the buttons of the last column are not
  modelled. \<open>registry\<close> is the store behind
  \<^verbatim>\<open>QSettings("YourOrganization", "AfterEffectsPipeline")\<close>; \<open>dialogs\<close>
  lists the message boxes shown and \<open>threads\<close> the commands of the worker threads
  started, in order. \<open>processes\<close> are the names \<^verbatim>\<open>psutil.process_iter\<close>
  reports, \<open>candidate_names\<close> the random names \<^verbatim>\<open>tempfile.mktemp\<close>
  tries in turn, and \<open>recursion_limit\<close> the number of nested arrays and objects
  \<^verbatim>\<open>json.loads\<close> can open before the interpreter raises
  \<open>RecursionError\<close> (what is left of \<^verbatim>\<open>sys.getrecursionlimit()\<close>
  where \<^verbatim>\<open>load_settings\<close> runs).

  In \<^verbatim>\<open>py_ae_v3.py\<close> an entry of \<open>last_project_files\<close> is a dict
  with the keys \<^verbatim>\<open>path\<close> (a \<open>Path\<close>) and \<^verbatim>\<open>created_by\<close>
  (whatever the settings held: a JSON value), built by \<^verbatim>\<open>load_settings\<close>
  and \<^verbatim>\<open>update_last_projects_list\<close>, or a bare \<open>Path\<close>, built by
  \<^verbatim>\<open>load_all_projects\<close>. \<open>imported_assets\<close> is the JSON value
  last loaded or appended to.
\<close>

datatype dialog = Warning string string | Information string string
  | Critical string string | ErrorMessage string string

datatype button = Yes | No | Cancel

datatype popen_args = ArgList "string list" | CommandLine string

datatype exit_status = ExitSuccess | ExitFailure | LaunchFailure

datatype signal = Finished | FinishedWith bool

datatype outcome = Returned | Raised error

record row =
  cells :: "string option list"
  hidden :: bool

record project_info =
  path :: string
  created_by :: json

datatype project_entry = Info project_info | BarePath string

record pipeline =
  fs :: filesystem
  registry :: "string \<Rightarrow> string option"
  processes :: "string list"
  clock :: nat
  username :: string
  tempdir :: string
  candidate_names :: "string list"
  module_dir :: string
  recursion_limit :: nat
  dialogs :: "dialog list"
  threads :: "popen_args list"
  last_project_files :: "project_entry list"
  imported_assets :: json
  last_projects_table :: "row list"
  projects_table :: "row list"
  imported_assets_table :: "row list"
  asset_search_bar :: string

definition item :: "row list \<Rightarrow> int \<Rightarrow> nat \<Rightarrow> string option" where
  "item tbl r c =
     (if 0 \<le> r \<and> nat r < length tbl \<and> c < length (cells (tbl ! nat r))
      then cells (tbl ! nat r) ! c else None)"

definition new_row :: "string option list \<Rightarrow> row" where
  "new_row cs = \<lparr>cells = cs, hidden = False\<rparr>"

definition settings_value :: "pipeline \<Rightarrow> string \<Rightarrow> string \<Rightarrow> string" where
  "settings_value w key dflt = (case registry w key of None \<Rightarrow> dflt | Some v \<Rightarrow> v)"

definition show_error_message :: "string \<Rightarrow> string \<Rightarrow> pipeline \<Rightarrow> pipeline" where
  "show_error_message title message w = w\<lparr>dialogs := dialogs w @ [ErrorMessage title message]\<rparr>"

definition and_then :: "outcome \<times> pipeline \<Rightarrow> (pipeline \<Rightarrow> outcome \<times> pipeline) \<Rightarrow> outcome \<times> pipeline" where
  "and_then r k = (case r of (Returned, w) \<Rightarrow> k w | (Raised e, w) \<Rightarrow> (Raised e, w))"

fun collect :: "(error + 'a) list \<Rightarrow> error + 'a list" where
  "collect [] = Inr []"
| "collect (x # xs) =
     (case x of
        Inl e \<Rightarrow> Inl e
      | Inr v \<Rightarrow> (case collect xs of Inl e \<Rightarrow> Inl e | Inr vs \<Rightarrow> Inr (v # vs)))"

definition mktemp :: "pipeline \<Rightarrow> string \<Rightarrow> error + string" where
  "mktemp w suffix =
     (case find (\<lambda>n. \<not> path_exists (fs w) (os_path_join (tempdir w) (''tmp'' @ n @ suffix)))
             (candidate_names w) of
        None \<Rightarrow> Inl FileExistsError
      | Some n \<Rightarrow> Inr (os_path_join (tempdir w) (''tmp'' @ n @ suffix)))"

section \<open>py_ae_v3.py\<close>

subsection \<open>Settings\<close>

text \<open>
  \<open>comprehension\<close> is a list comprehension with a condition that may raise.
  A table item is built from a \<open>str\<close>: \<open>insert_project_rows\<close> and
  \<open>populate_imported_assets_table\<close> raise \<open>TypeError\<close> at the first cell
  whose value is not one, leaving the row with the cells set so far.
  \<open>iterate\<close> is what a \<^verbatim>\<open>for\<close> loop over a JSON value visits.
  \<^verbatim>\<open>load_settings\<close> also sets \<^verbatim>\<open>last_project_directory\<close>,
  a field no modelled method reads.
\<close>

fun serialize_project :: "project_entry \<Rightarrow> error + json" where
  "serialize_project (Info p) = Inr (JObj [(''path'', JStr (path p)), (''created_by'', created_by p)])"
| "serialize_project (BarePath p) = Inl TypeError"

definition save_settings :: "pipeline \<Rightarrow> outcome \<times> pipeline" where
  "save_settings w =
     (case collect (map serialize_project (last_project_files w)) of
        Inl e \<Rightarrow> (Raised e, w)
      | Inr js \<Rightarrow>
          (Returned,
           w\<lparr>registry := (registry w)
                (''last_project_files'' \<mapsto> json_dumps (JArr js),
                 ''imported_assets'' \<mapsto> json_dumps (imported_assets w))\<rparr>))"

definition save_imported_assets_settings :: "pipeline \<Rightarrow> outcome \<times> pipeline" where
  "save_imported_assets_settings w =
     (Returned, w\<lparr>registry := (registry w)(''imported_assets'' \<mapsto> json_dumps (imported_assets w))\<rparr>)"

fun comprehension :: "('a \<Rightarrow> error + bool) \<Rightarrow> 'a list \<Rightarrow> error + 'a list" where
  "comprehension cond [] = Inr []"
| "comprehension cond (x # xs) =
     (case cond x of
        Inl e \<Rightarrow> Inl e
      | Inr b \<Rightarrow>
          (case comprehension cond xs of
             Inl e \<Rightarrow> Inl e
           | Inr r \<Rightarrow> Inr (if b then x # r else r)))"

fun entry_exists :: "filesystem \<Rightarrow> project_entry \<Rightarrow> error + bool" where
  "entry_exists f (Info p) = Inr (path_exists f (Path (path p)))"
| "entry_exists f (BarePath p) = Inl TypeError"

fun insert_project_rows :: "filesystem \<Rightarrow> project_entry list \<Rightarrow> row list \<Rightarrow> error option \<times> row list" where
  "insert_project_rows f [] tbl = (None, tbl)"
| "insert_project_rows f (BarePath p # es) tbl = (Some TypeError, tbl)"
| "insert_project_rows f (Info p # es) tbl =
     (case f (Path (path p)) of
        None \<Rightarrow> (Some FileNotFoundError, tbl)
      | Some nd \<Rightarrow>
          (case created_by p of
             JStr who \<Rightarrow>
               insert_project_rows f es
                 (tbl @ [new_row [Some (basename (Path (path p))), Some (Path (path p)),
                                  Some (format_time (mtime nd)), Some who, None]])
           | _ \<Rightarrow>
               (Some TypeError,
                tbl @ [new_row [Some (basename (Path (path p))), Some (Path (path p)),
                                Some (format_time (mtime nd)), None, None]])))"

definition populate_last_projects_table :: "pipeline \<Rightarrow> outcome \<times> pipeline" where
  "populate_last_projects_table w =
     (let w0 = w\<lparr>last_projects_table := []\<rparr> in
      case comprehension (entry_exists (fs w)) (last_project_files w) of
        Inl e \<Rightarrow> (Raised e, w0)
      | Inr existing_projects \<Rightarrow>
          (let w1 = w0\<lparr>last_project_files := existing_projects\<rparr> in
           case insert_project_rows (fs w) existing_projects [] of
             (Some e, tbl) \<Rightarrow> (Raised e, w1\<lparr>last_projects_table := tbl\<rparr>)
           | (None, tbl) \<Rightarrow> save_settings (w1\<lparr>last_projects_table := tbl\<rparr>)))"

fun iterate :: "json \<Rightarrow> error + json list" where
  "iterate (JArr xs) = Inr xs"
| "iterate (JObj kvs) = Inr (map (\<lambda>kv. JStr (fst kv)) kvs)"
| "iterate (JStr s) = Inr (map (\<lambda>c. JStr [c]) s)"
| "iterate _ = Inl TypeError"

fun is_dict :: "json \<Rightarrow> bool" where
  "is_dict (JObj kvs) = True"
| "is_dict _ = False"

fun project_of_json :: "json \<Rightarrow> error + project_entry" where
  "project_of_json (JObj kvs) =
     (case dict_get kvs ''path'' of
        None \<Rightarrow> Inl KeyError
      | Some (JStr s) \<Rightarrow>
          Inr (Info \<lparr>path = Path s,
                     created_by = (case dict_get kvs ''created_by'' of
                                     None \<Rightarrow> JStr ''Unknown'' | Some v \<Rightarrow> v)\<rparr>)
      | Some _ \<Rightarrow> Inl TypeError)"
| "project_of_json _ = Inl TypeError"

definition load_project_files :: "nat \<Rightarrow> string \<Rightarrow> error + project_entry list" where
  "load_project_files limit s =
     (case json_loads limit s of
        Inl e \<Rightarrow> if e = JSONDecodeError then Inr [] else Inl e
      | Inr v \<Rightarrow>
          (case iterate v of
             Inl e \<Rightarrow> Inl e
           | Inr xs \<Rightarrow> collect (map project_of_json (filter is_dict xs))))"

definition load_imported_assets :: "nat \<Rightarrow> string \<Rightarrow> error + json" where
  "load_imported_assets limit s =
     (case json_loads limit s of
        Inl e \<Rightarrow> if e = JSONDecodeError then Inr (JArr []) else Inl e
      | Inr v \<Rightarrow> Inr v)"

definition populate_imported_assets_table ::
    "string \<Rightarrow> string \<Rightarrow> json \<Rightarrow> json \<Rightarrow> row list \<Rightarrow> error option \<times> row list" where
  "populate_imported_assets_table asset_name file_path last_modified imported_by tbl =
     (case last_modified of
        JStr lm \<Rightarrow>
          (case imported_by of
             JStr who \<Rightarrow>
               (None, tbl @ [new_row [Some asset_name, Some file_path, Some lm, Some who, None]])
           | _ \<Rightarrow>
               (Some TypeError, tbl @ [new_row [Some asset_name, Some file_path, Some lm, None, None]]))
      | _ \<Rightarrow> (Some TypeError, tbl @ [new_row [Some asset_name, Some file_path, None, None, None]]))"

fun asset_arguments :: "json \<Rightarrow> error + string \<times> string \<times> json \<times> json" where
  "asset_arguments (JObj kvs) =
     (case dict_get kvs ''path'' of
        None \<Rightarrow> Inl KeyError
      | Some (JStr p) \<Rightarrow>
          (case dict_get kvs ''last_modified'' of
             None \<Rightarrow> Inl KeyError
           | Some lm \<Rightarrow>
               Inr (basename p, p, lm,
                    (case dict_get kvs ''imported_by'' of
                       None \<Rightarrow> JStr ''Unknown'' | Some v \<Rightarrow> v)))
      | Some _ \<Rightarrow> Inl TypeError)"
| "asset_arguments _ = Inl TypeError"

fun add_asset_rows :: "json list \<Rightarrow> pipeline \<Rightarrow> outcome \<times> pipeline" where
  "add_asset_rows [] w = (Returned, w)"
| "add_asset_rows (asset # assets) w =
     (case asset_arguments asset of
        Inl e \<Rightarrow> (Raised e, w)
      | Inr (asset_name, file_path, last_modified, imported_by) \<Rightarrow>
          (case populate_imported_assets_table asset_name file_path last_modified imported_by
                  (imported_assets_table w) of
             (Some e, tbl) \<Rightarrow> (Raised e, w\<lparr>imported_assets_table := tbl\<rparr>)
           | (None, tbl) \<Rightarrow> add_asset_rows assets (w\<lparr>imported_assets_table := tbl\<rparr>)))"

definition load_settings :: "pipeline \<Rightarrow> outcome \<times> pipeline" where
  "load_settings w =
     (case load_project_files (recursion_limit w)
             (settings_value w ''last_project_files'' ''[]'') of
        Inl e \<Rightarrow> (Raised e, w)
      | Inr projects \<Rightarrow>
          (let w1 = w\<lparr>last_project_files := projects\<rparr> in
           case load_imported_assets (recursion_limit w)
                  (settings_value w ''imported_assets'' ''[]'') of
             Inl e \<Rightarrow> (Raised e, w1)
           | Inr assets \<Rightarrow>
               and_then
                 (populate_last_projects_table
                    (w1\<lparr>imported_assets := assets, last_projects_table := [],
                        imported_assets_table := []\<rparr>))
                 (\<lambda>w3. case iterate (imported_assets w3) of
                         Inl e \<Rightarrow> (Raised e, w3)
                       | Inr xs \<Rightarrow> add_asset_rows xs w3)))"

subsection \<open>Search bars\<close>

definition load_all_projects :: "pipeline \<Rightarrow> project_entry list" where
  "load_all_projects w =
     (case registry w ''last_project_directory'' of
        None \<Rightarrow> []
      | Some d \<Rightarrow>
          if d = [] then []
          else (case registry w ''last_project_files'' of
                  None \<Rightarrow> []
                | Some s \<Rightarrow> map (\<lambda>c. BarePath (Path [c])) s))"

fun name_matches :: "string \<Rightarrow> project_entry \<Rightarrow> error + bool" where
  "name_matches text (Info p) = Inl AttributeError"
| "name_matches text (BarePath p) = Inr (contains (lower text) (lower (basename p)))"

definition filter_projects_v3 :: "string \<Rightarrow> pipeline \<Rightarrow> outcome \<times> pipeline" where
  "filter_projects_v3 text w =
     (if text = [] then
        populate_last_projects_table (w\<lparr>last_project_files := load_all_projects w\<rparr>)
      else
        (case comprehension (name_matches text) (last_project_files w) of
           Inl e \<Rightarrow> (Raised e, w)
         | Inr filtered_projects \<Rightarrow>
             populate_last_projects_table (w\<lparr>last_project_files := filtered_projects\<rparr>)))"

definition set_row_hidden :: "nat \<Rightarrow> bool \<Rightarrow> row list \<Rightarrow> row list" where
  "set_row_hidden r b tbl = (if r < length tbl then tbl[r := (tbl ! r)\<lparr>hidden := b\<rparr>] else tbl)"

definition filter_asset_row :: "string \<Rightarrow> nat \<Rightarrow> row list \<Rightarrow> row list" where
  "filter_asset_row search_text r tbl =
     (case item tbl (int r) 0 of
        None \<Rightarrow> tbl
      | Some asset_name \<Rightarrow>
          if contains search_text (lower asset_name) then set_row_hidden r False tbl
          else set_row_hidden r True tbl)"

definition filter_assets :: "pipeline \<Rightarrow> pipeline" where
  "filter_assets w =
     w\<lparr>imported_assets_table :=
          fold (filter_asset_row (lower (asset_search_bar w)))
               [0..<length (imported_assets_table w)] (imported_assets_table w)\<rparr>"

subsection \<open>Worker thread\<close>

text \<open>
  The thread is modelled by what it holds (the command given to
  \<^verbatim>\<open>subprocess.run\<close>) and by what its \<open>run\<close> does once the child
  process has ended: which signals it emits and which exception leaves it.
  \<open>exit_status\<close> is how the child ended: with status 0, with another status
  (\<open>CalledProcessError\<close>, as \<^verbatim>\<open>check=True\<close> asks), or not started
  at all (\<open>OSError\<close>).
\<close>

record thread_result =
  executed :: popen_args
  emitted :: "signal list"
  propagated :: "error option"

definition subprocess_run :: "exit_status \<Rightarrow> error option" where
  "subprocess_run status =
     (case status of
        ExitSuccess \<Rightarrow> None
      | ExitFailure \<Rightarrow> Some CalledProcessError
      | LaunchFailure \<Rightarrow> Some OSError)"

definition AfterEffectsThread_v3 :: "string list \<Rightarrow> popen_args" where
  "AfterEffectsThread_v3 command = ArgList command"

definition AfterEffectsThread_run_v3 :: "popen_args \<Rightarrow> exit_status \<Rightarrow> thread_result" where
  "AfterEffectsThread_run_v3 command status =
     (case subprocess_run status of
        None \<Rightarrow> \<lparr>executed = command, emitted = [Finished], propagated = None\<rparr>
      | Some e \<Rightarrow>
          if e = CalledProcessError
          then \<lparr>executed = command, emitted = [Finished], propagated = None\<rparr>
          else \<lparr>executed = command, emitted = [Finished], propagated = Some e\<rparr>)"

definition run_after_effects_command_async_v3 :: "string list \<Rightarrow> pipeline \<Rightarrow> pipeline" where
  "run_after_effects_command_async_v3 command w =
     w\<lparr>threads := threads w @ [AfterEffectsThread_v3 command]\<rparr>"

definition AfterEffectsThread_py_ae :: "string list \<Rightarrow> popen_args" where
  "AfterEffectsThread_py_ae command = CommandLine (join_with '' '' command)"

definition AfterEffectsThread_run_py_ae :: "popen_args \<Rightarrow> exit_status \<Rightarrow> thread_result" where
  "AfterEffectsThread_run_py_ae command status =
     (case subprocess_run status of
        None \<Rightarrow> \<lparr>executed = command, emitted = [FinishedWith True], propagated = None\<rparr>
      | Some e \<Rightarrow>
          if e = CalledProcessError
          then \<lparr>executed = command, emitted = [FinishedWith False], propagated = None\<rparr>
          else \<lparr>executed = command, emitted = [], propagated = Some e\<rparr>)"

definition run_after_effects_command_async_py_ae :: "string list \<Rightarrow> pipeline \<Rightarrow> pipeline" where
  "run_after_effects_command_async_py_ae command w =
     w\<lparr>threads := threads w @ [AfterEffectsThread_py_ae command]\<rparr>"

subsection \<open>Importing an asset\<close>

definition newline :: char where "newline = CHR 0x0A"

definition apostrophe :: char where "apostrophe = CHR 0x27"

definition indent :: "nat \<Rightarrow> string" where
  "indent n = replicate n (CHR '' '')"

definition script_content :: "string \<Rightarrow> string" where
  "script_content corrected_path =
     concat
      [[newline],
       indent 12, ''var fileToImport = new File('', [dquote], corrected_path, [dquote], '');'', [newline],
       indent 12, ''if (fileToImport.exists) {'', [newline],
       indent 16, ''app.project.importFile(new ImportOptions(fileToImport));'', [newline],
       indent 12, ''} else {'', [newline],
       indent 16, ''alert('', [apostrophe], ''File does not exist: '', corrected_path,
                  [apostrophe], '');'', [newline],
       indent 12, ''}'', [newline],
       indent 8]"

definition write_script :: "string \<Rightarrow> pipeline \<Rightarrow> error + string \<times> pipeline" where
  "write_script text w =
     (case mktemp w ''.jsx'' of
        Inl e \<Rightarrow> Inl e
      | Inr script_file_path \<Rightarrow>
          (case write_file (fs w) (clock w) script_file_path text of
             Inl e \<Rightarrow> Inl e
           | Inr f \<Rightarrow> Inr (script_file_path, w\<lparr>fs := f\<rparr>)))"

definition execute_jsx_script_v3 :: "string \<Rightarrow> string \<Rightarrow> pipeline \<Rightarrow> outcome \<times> pipeline" where
  "execute_jsx_script_v3 aePath file_path w =
     (let corrected_path = str_replace [backslash] [backslash, backslash] file_path in
      case write_script (script_content corrected_path) w of
        Inl e \<Rightarrow> (Raised e, w)
      | Inr (script_file_path, w1) \<Rightarrow>
          (Returned, run_after_effects_command_async_v3 [aePath, ''-r'', script_file_path] w1))"

definition execute_jsx_script_py_ae :: "string \<Rightarrow> string \<Rightarrow> pipeline \<Rightarrow> outcome \<times> pipeline" where
  "execute_jsx_script_py_ae ae_path file_path w =
     (let corrected_path = str_replace ''//'' ''////'' file_path in
      case write_script (script_content corrected_path) w of
        Inl e \<Rightarrow> (Raised e, w)
      | Inr (script_file_path, w1) \<Rightarrow>
          (Returned, run_after_effects_command_async_py_ae [ae_path, ''-r'', script_file_path] w1))"

fun any_process_named :: "string \<Rightarrow> string list \<Rightarrow> bool" where
  "any_process_named ae_process_name [] = False"
| "any_process_named ae_process_name (name # procs) =
     (if contains ae_process_name name then True else any_process_named ae_process_name procs)"

definition is_after_effects_running :: "pipeline \<Rightarrow> bool" where
  "is_after_effects_running w = any_process_named ''AfterFX.exe'' (processes w)"

definition get_after_effects_path :: "pipeline \<Rightarrow> string option \<times> pipeline" where
  "get_after_effects_path w =
     (let aePath = settings_value w ''aePath'' [] in
      if aePath = [] \<or> \<not> isfile (fs w) aePath
      then (None, show_error_message ''Error''
                    ''After Effects executable path is not set correctly in settings.'' w)
      else (Some aePath, w))"

definition get_assets_folder_path :: "pipeline \<Rightarrow> string option \<times> pipeline" where
  "get_assets_folder_path w =
     (let assetsFolder = settings_value w ''assetsFolder'' [] in
      if assetsFolder = [] \<or> \<not> path_exists (fs w) assetsFolder
      then (None, show_error_message ''Assets folder not set''
                    ''Please set the assets folder path in settings.'' w)
      else (Some assetsFolder, w))"

definition update_imported_assets_v3 :: "string \<Rightarrow> string \<Rightarrow> string \<Rightarrow> pipeline \<Rightarrow> outcome \<times> pipeline" where
  "update_imported_assets_v3 file_path last_modified imported_by w =
     (case imported_assets w of
        JArr xs \<Rightarrow>
          (let w1 = w\<lparr>imported_assets :=
                        JArr (xs @ [JObj [(''path'', JStr file_path),
                                          (''last_modified'', JStr last_modified),
                                          (''imported_by'', JStr imported_by)]])\<rparr>;
               tbl = snd (populate_imported_assets_table (basename file_path) file_path
                            (JStr last_modified) (JStr imported_by) (imported_assets_table w1))
           in save_imported_assets_settings (w1\<lparr>imported_assets_table := tbl\<rparr>))
      | _ \<Rightarrow> (Raised AttributeError, w))"

definition import_file_connection_v3 :: "string \<Rightarrow> pipeline \<Rightarrow> outcome \<times> pipeline" where
  "import_file_connection_v3 chosen_file w =
     (if \<not> is_after_effects_running w
      then (Returned, show_error_message ''After Effects Not Running''
                        ''Adobe After Effects must be open to import assets.'' w)
      else
        (case get_after_effects_path w of
           (None, w1) \<Rightarrow> (Returned, w1)
         | (Some aePath, w1) \<Rightarrow>
             (case get_assets_folder_path w1 of
                (None, w2) \<Rightarrow> (Returned, w2)
              | (Some assetsFolder, w2) \<Rightarrow>
                  if chosen_file = [] then (Returned, w2)
                  else
                    (case shutil_copy (fs w2) (clock w2) chosen_file assetsFolder of
                       Inl e \<Rightarrow> (Raised e, w2)
                     | Inr (destination, f) \<Rightarrow>
                         and_then (execute_jsx_script_v3 aePath destination (w2\<lparr>fs := f\<rparr>))
                           (update_imported_assets_v3 chosen_file (format_time (clock w2))
                              (username w2))))))"

subsection \<open>Deleting and creating projects\<close>

definition report_delete_error :: "error \<Rightarrow> pipeline \<Rightarrow> pipeline" where
  "report_delete_error e w =
     (if e = FileNotFoundError
      then w\<lparr>dialogs := dialogs w @ [Information ''File Not Found'' ''The project file does not exist.'']\<rparr>
      else w\<lparr>dialogs := dialogs w @ [Critical ''Error'' ''Error deleting project file'']\<rparr>)"

definition del_index :: "nat \<Rightarrow> 'a list \<Rightarrow> 'a list" where
  "del_index i xs = take i xs @ drop (Suc i) xs"

definition delete_project_v3 :: "int \<Rightarrow> button \<Rightarrow> pipeline \<Rightarrow> outcome \<times> pipeline" where
  "delete_project_v3 index confirmation w =
     (if \<not> (0 \<le> index \<and> index < int (length (last_project_files w)))
      then (Returned, w\<lparr>dialogs := dialogs w @
                        [Warning ''Invalid Selection'' ''The selected project is invalid.'']\<rparr>)
      else
        (case last_project_files w ! nat index of
           BarePath p \<Rightarrow> (Raised TypeError, w)
         | Info project_info \<Rightarrow>
             if confirmation \<noteq> Yes then (Returned, w)
             else if \<not> path_exists (fs w) (Path (path project_info))
             then (Returned, report_delete_error FileNotFoundError w)
             else
               (case os_remove (fs w) (Path (path project_info)) of
                  Inl e \<Rightarrow> (Returned, report_delete_error e w)
                | Inr f \<Rightarrow>
                    (case and_then
                            (populate_last_projects_table
                               (w\<lparr>fs := f,
                                  last_project_files := del_index (nat index) (last_project_files w)\<rparr>))
                            save_settings of
                       (Raised e, w1) \<Rightarrow> (Returned, report_delete_error e w1)
                     | (Returned, w1) \<Rightarrow>
                         (Returned,
                          w1\<lparr>dialogs := dialogs w1 @
                               [Information ''Success'' ''The project has been successfully deleted.'']\<rparr>)))))"

definition remove_row_py_ae :: "int \<Rightarrow> pipeline \<Rightarrow> pipeline" where
  "remove_row_py_ae index w =
     (if int (length (projects_table w)) > index \<and> 0 \<le> index
      then w\<lparr>projects_table := del_index (nat index) (projects_table w)\<rparr>
      else w)"

definition delete_project_py_ae :: "int \<Rightarrow> button \<Rightarrow> pipeline \<Rightarrow> outcome \<times> pipeline" where
  "delete_project_py_ae index confirmation w =
     (if confirmation \<noteq> Yes then (Returned, w)
      else
        (case item (projects_table w) index 1 of
           None \<Rightarrow> (Raised AttributeError, w)
         | Some text \<Rightarrow>
             if \<not> path_exists (fs w) (Path text) then (Raised TypeError, w)
             else
               (case os_remove (fs w) (Path text) of
                  Inl e \<Rightarrow> (Raised e, w)
                | Inr f \<Rightarrow> (Returned, remove_row_py_ae index (w\<lparr>fs := f\<rparr>)))))"







subsection \<open>py_ae.py: search bar and start-up loading\<close>

definition filter_projects_py_ae :: "string \<Rightarrow> pipeline \<Rightarrow> outcome \<times> pipeline" where
  "filter_projects_py_ae sub_string w = (Returned, w)"




section \<open>Auxiliary notions for the statements\<close>

text \<open>
  Predicates and examples the statements below use: a JSON value whose objects have distinct
  keys, a JSON value that the decoder reads back within its limits (nesting no deeper than
  the levels left, integers of at most 4300 digits), what may follow a JSON number in a text,
  the row a search leaves for a given row, and a small world for the concrete instances.
\<close>

definition delimited :: "string \<Rightarrow> bool" where
  "delimited rest =
     (case rest of
        [] \<Rightarrow> True
      | c # _ \<Rightarrow> \<not> is_digit c \<and> c \<noteq> CHR ''.'' \<and> c \<noteq> CHR ''e'' \<and> c \<noteq> CHR ''E'')"

fun wf_json :: "json \<Rightarrow> bool" where
  "wf_json (JArr vs) = (\<forall>v \<in> set vs. wf_json v)"
| "wf_json (JObj kvs) = (distinct (map fst kvs) \<and> (\<forall>kv \<in> set kvs. wf_json (snd kv)))"
| "wf_json _ = True"

fun within_limits :: "nat \<Rightarrow> json \<Rightarrow> bool" where
  "within_limits depth (JArr vs) = (0 < depth \<and> (\<forall>v \<in> set vs. within_limits (depth - 1) v))"
| "within_limits depth (JObj kvs) =
     (0 < depth \<and> (\<forall>kv \<in> set kvs. within_limits (depth - 1) (snd kv)))"
| "within_limits depth (JNum i) = (length (str_nat (nat \<bar>i\<bar>)) \<le> int_max_str_digits)"
| "within_limits depth _ = True"

definition starts_value :: "string \<Rightarrow> bool" where
  "starts_value s = (case s of [] \<Rightarrow> False
     | c # _ \<Rightarrow> \<not> is_ws c \<and> c \<noteq> CHR '']'' \<and> c \<noteq> CHR ''}'')"

definition dump_pair :: "string \<times> json \<Rightarrow> string" where
  "dump_pair kv = encode_string (fst kv) @ '': '' @ json_dumps (snd kv)"

definition filter_row :: "string \<Rightarrow> row \<Rightarrow> row" where
  "filter_row search_text rw =
     (case (if 0 < length (cells rw) then cells rw ! 0 else None) of
        None \<Rightarrow> rw
      | Some asset_name \<Rightarrow> rw\<lparr>hidden := \<not> contains search_text (lower asset_name)\<rparr>)"

definition example_table :: "row list" where
  "example_table =
     [\<lparr>cells = [Some ''Clip.MOV'', Some ''C:/assets/Clip.MOV'', Some ''2024'', Some ''bob'', None],
       hidden = True\<rparr>,
      \<lparr>cells = [None, None, None, None, None], hidden = True\<rparr>]"

definition demo_fs :: filesystem where
  "demo_fs =
     [''.'' \<mapsto> Dir 1,
      ''C:/Temp'' \<mapsto> Dir 1,
      ''C:/assets'' \<mapsto> Dir 1,
      ''C:/projects'' \<mapsto> Dir 1,
      ''C:/ae/AfterFX.exe'' \<mapsto> File ''MZ'' 2,
      ''C:/footage/Clip.MOV'' \<mapsto> File ''frames'' 3,
      ''C:/projects/intro.aep'' \<mapsto> File ''RIFX'' 4,
      ''C:/app/Blank_Project.aep'' \<mapsto> File ''blank'' 1,
      ''C:/Users/marty/ae_test_2/Blank_Project.aep'' \<mapsto> File ''blank'' 1]"

definition demo_registry :: "string \<Rightarrow> string option" where
  "demo_registry =
     [''aePath'' \<mapsto> ''C:/ae/AfterFX.exe'',
      ''assetsFolder'' \<mapsto> ''C:/assets'',
      ''projectsFolder'' \<mapsto> ''C:/projects'']"

definition demo_world :: pipeline where
  "demo_world =
     \<lparr>fs = demo_fs, registry = demo_registry,
      processes = [''explorer.exe'', ''AfterFX.exe''],
      clock = 7, username = ''marty'', tempdir = ''C:/Temp'',
      candidate_names = [''k3x9q2ab''], module_dir = ''C:/app'', recursion_limit = 990,
      dialogs = [], threads = [],
      last_project_files =
        [Info \<lparr>path = ''C:/projects/intro.aep'', created_by = JStr ''marty''\<rparr>,
         Info \<lparr>path = ''C:/projects/gone.aep'', created_by = JStr ''bob''\<rparr>],
      imported_assets = JArr [],
      last_projects_table = [], projects_table = [],
      imported_assets_table = example_table,
      asset_search_bar = []\<rparr>"

definition idle_world :: pipeline where
  "idle_world = demo_world\<lparr>processes := [''explorer.exe'', ''Photoshop.exe'']\<rparr>"

fun is_info :: "project_entry \<Rightarrow> bool" where
  "is_info (Info p) = True"
| "is_info (BarePath p) = False"

fun entry_on_disk :: "filesystem \<Rightarrow> project_entry \<Rightarrow> bool" where
  "entry_on_disk f (Info p) = path_exists f (Path (path p))"
| "entry_on_disk f (BarePath p) = False"


definition row_path :: "row \<Rightarrow> string option" where
  "row_path rw = (if 1 < length (cells rw) then cells rw ! 1 else None)"

definition row_on_disk :: "filesystem \<Rightarrow> row \<Rightarrow> bool" where
  "row_on_disk f rw = (case row_path rw of None \<Rightarrow> False | Some p \<Rightarrow> path_exists f (Path p))"

fun named_creator :: "project_entry \<Rightarrow> bool" where
  "named_creator (Info p) = (case created_by p of JStr who \<Rightarrow> True | _ \<Rightarrow> False)"
| "named_creator (BarePath p) = False"


definition bad_settings_world :: pipeline where
  "bad_settings_world =
     demo_world\<lparr>registry := [''last_project_files'' \<mapsto> ''{oops'', ''imported_assets'' \<mapsto> ''[1, 2'']\<rparr>"

definition mixed_entries :: "json list" where
  "mixed_entries =
     [JNum 1, JObj [(''path'', JStr ''C:/projects/intro.aep'')], JStr ''x'', JNull,
      JObj [(''path'', JStr ''C:/projects/gone.aep''), (''created_by'', JStr ''bob'')]]"

definition mixed_settings_world :: pipeline where
  "mixed_settings_world =
     demo_world\<lparr>registry := [''last_project_files'' \<mapsto> json_dumps (JArr mixed_entries)]\<rparr>"

definition deep_text :: string where
  "deep_text = replicate 1200 (CHR ''['')"

definition deep_settings_world :: pipeline where
  "deep_settings_world = demo_world\<lparr>registry := [''last_project_files'' \<mapsto> deep_text]\<rparr>"

definition deep_assets_world :: pipeline where
  "deep_assets_world = demo_world\<lparr>registry := [''imported_assets'' \<mapsto> deep_text]\<rparr>"

definition browser_world :: pipeline where
  "browser_world =
     demo_world\<lparr>projects_table :=
       [new_row [Some ''intro'', Some ''C:/projects/intro.aep'', Some ''2024-03-01 10:00:00'',
                 Some ''marty'', None],
        new_row [Some ''old'', Some ''C:/projects/gone.aep'', Some ''2023-01-01 09:00:00'',
                 Some ''bob'', None]]\<rparr>"

definition project_json :: "project_info \<Rightarrow> json" where
  "project_json p = JObj [(''path'', JStr (path p)), (''created_by'', created_by p)]"

fun asset_record :: "json \<Rightarrow> bool" where
  "asset_record (JObj kvs) =
     (case dict_get kvs ''path'' of
        Some (JStr p) \<Rightarrow>
          (case dict_get kvs ''last_modified'' of
             Some (JStr lm) \<Rightarrow>
               (case dict_get kvs ''imported_by'' of
                  None \<Rightarrow> True
                | Some (JStr who) \<Rightarrow> True
                | Some _ \<Rightarrow> False)
           | _ \<Rightarrow> False)
      | _ \<Rightarrow> False)"
| "asset_record _ = False"

definition saved_world :: pipeline where
  "saved_world =
     demo_world\<lparr>last_project_files :=
         [Info \<lparr>path = ''C:/projects/intro.aep'', created_by = JStr ''marty''\<rparr>],
       imported_assets :=
         JArr [JObj [(''path'', JStr ''C:/footage/Clip.MOV''),
                     (''last_modified'', JStr ''2024-03-01 10:00:00''),
                     (''imported_by'', JStr ''marty'')]]\<rparr>"





definition after_effects_exe :: string where
  "after_effects_exe = ''C:/Program Files/Adobe/Adobe After Effects 2024/Support Files/AfterFX.exe''"

definition escape_backslashes :: "string \<Rightarrow> string" where
  "escape_backslashes s = concat (map (\<lambda>c. if c = backslash then [backslash, backslash] else [c]) s)"

definition demo_script :: string where
  "demo_script = ''C:/Temp'' @ [backslash] @ ''tmpk3x9q2ab.jsx''"

definition native_asset_path :: string where
  "native_asset_path = ''C:/assets'' @ [backslash] @ ''clip.mov''"

section \<open>Properties\<close>

lemma hex_val_hex_digit: "n < 16 \<Longrightarrow> hex_val (hex_digit n) = Some n"
  by (auto simp: hex_val_def hex_digit_def Let_def)

lemma hex_val_zero: "hex_val (CHR ''0'') = Some 0"
  by (simp add: hex_val_def)

lemma hex4_byte:
  assumes "k < 256"
  shows "hex4 (CHR ''0'') (CHR ''0'') (hex_digit (k div 16)) (hex_digit (k mod 16)) = Some k"
proof -
  have a: "k div 16 < 16" using assms by simp
  have b: "k mod 16 < 16" by simp
  have c: "k div 16 * 16 + k mod 16 = k" by simp
  show ?thesis using assms
    by (simp add: hex4_def hex_val_zero hex_val_hex_digit [OF a] hex_val_hex_digit [OF b] c)
qed

lemma of_char_less_256: "(of_char c :: nat) < 256"
  by (cases c) simp

lemma scanstring_escape: "scanstring (escape_char c @ s) = cons_result c (scanstring s)"
proof -
  have k: "(of_char c :: nat) < 256" by (rule of_char_less_256)
  show ?thesis
    using hex4_byte [OF k] k
    by (auto simp: escape_char_def unescape_def dquote_def backslash_def cons_result_def)
qed

lemma scanstring_concat:
  "scanstring (concat (map escape_char s) @ dquote # rest) = Inr (s, rest)"
  by (induction s) (simp_all add: scanstring_escape cons_result_def)

lemma scanstring_encode:
  "encode_string s @ rest = dquote # concat (map escape_char s) @ dquote # rest"
  by (simp add: encode_string_def)

lemma is_digit_char_of: "(d::nat) < 10 \<Longrightarrow> is_digit (char_of (48 + d))"
  by (simp add: is_digit_def)

lemma digit_val_char_of: "(d::nat) < 10 \<Longrightarrow> digit_val (char_of (48 + d)) = d"
  by (simp add: digit_val_def)

lemma str_nat_digits: "\<forall>c \<in> set (str_nat n). is_digit c"
proof (induction n rule: str_nat.induct)
  case (1 n)
  show ?case
  proof (cases "n < 10")
    case True
    then show ?thesis by (subst str_nat.simps) (simp add: is_digit_char_of)
  next
    case False
    then show ?thesis using 1
      by (subst str_nat.simps) (simp add: is_digit_char_of)
  qed
qed

lemma str_nat_value: "foldl (\<lambda>a d. 10 * a + digit_val d) 0 (str_nat n) = n"
proof (induction n rule: str_nat.induct)
  case (1 n)
  show ?case
  proof (cases "n < 10")
    case True
    then show ?thesis by (subst str_nat.simps) (simp add: digit_val_char_of)
  next
    case False
    then show ?thesis using 1
      by (subst str_nat.simps) (simp add: digit_val_char_of)
  qed
qed

lemma char_of_48: "char_of (48::nat) = CHR ''0''"
  by code_simp

lemma char_of_zero_iff: "(d::nat) < 10 \<Longrightarrow> char_of (48 + d) = CHR ''0'' \<longleftrightarrow> d = 0"
proof
  assume d: "d < 10" and e: "char_of (48 + d) = CHR ''0''"
  have "(of_char (char_of (48 + d)) :: nat) = of_char (CHR ''0'')" using e by simp
  then show "d = 0" using d by simp
next
  assume "d = 0"
  then show "char_of (48 + d) = CHR ''0''" by (simp add: char_of_48)
qed

lemma str_nat_nonempty: "str_nat n \<noteq> []"
  by (subst str_nat.simps) simp

lemma str_nat_hd_zero: "hd (str_nat n) = CHR ''0'' \<longleftrightarrow> n = 0"
proof (induction n rule: str_nat.induct)
  case (1 n)
  show ?case
  proof (cases "n < 10")
    case True
    then have "str_nat n = [char_of (48 + n)]" by (subst str_nat.simps) simp
    moreover have "char_of (48 + n) = CHR ''0'' \<longleftrightarrow> n = 0"
      using True by (rule char_of_zero_iff)
    ultimately show ?thesis by simp
  next
    case False
    then have e: "str_nat n = str_nat (n div 10) @ [char_of (48 + n mod 10)]"
      by (subst str_nat.simps) simp
    have "n div 10 \<noteq> 0" using False by simp
    then show ?thesis using 1 False e str_nat_nonempty [of "n div 10"] by simp
  qed
qed

lemma delimited_float_tail: "delimited rest \<Longrightarrow> \<not> float_tail rest"
  by (auto simp: delimited_def float_tail_def split: list.splits)

lemma takeWhile_digits:
  "delimited rest \<Longrightarrow> takeWhile is_digit (str_nat n @ rest) = str_nat n"
  using str_nat_digits [of n]
  by (cases rest) (auto simp: delimited_def takeWhile_append2 takeWhile_eq_all_conv)

lemma dropWhile_digits:
  "delimited rest \<Longrightarrow> dropWhile is_digit (str_nat n @ rest) = rest"
  using str_nat_digits [of n]
  by (cases rest) (auto simp: delimited_def dropWhile_append2)

lemma scan_nat_str_nat:
  assumes "delimited rest" and "length (str_nat n) \<le> int_max_str_digits"
  shows "scan_nat (str_nat n @ rest) = Inr (n, rest)"
proof -
  note ft = delimited_float_tail [OF assms(1)]
  obtain c cs where s: "str_nat n = c # cs"
    using str_nat_nonempty [of n] by (cases "str_nat n") auto
  have d: "is_digit c" using str_nat_digits [of n] s by simp
  show ?thesis
  proof (cases "n = 0")
    case True
    then have "str_nat n = ''0''" by (subst str_nat.simps) (simp add: char_of_48)
    then show ?thesis using True ft
      by (simp add: scan_nat_def is_digit_def int_literal_def int_max_str_digits_def digit_val_def)
  next
    case False
    then have "c \<noteq> CHR ''0''" using str_nat_hd_zero [of n] s by simp
    then have "scan_nat (str_nat n @ rest) =
        int_literal (takeWhile is_digit (str_nat n @ rest)) (dropWhile is_digit (str_nat n @ rest))"
      using d s by (simp add: scan_nat_def)
    then show ?thesis using ft assms(2)
      by (simp add: takeWhile_digits [OF assms(1)] dropWhile_digits [OF assms(1)] str_nat_value
          int_literal_def)
  qed
qed

lemma str_nat_hd_not_minus: "hd (str_nat n) \<noteq> CHR ''-''"
proof -
  have "is_digit (hd (str_nat n))"
    using str_nat_digits [of n] str_nat_nonempty [of n] by (cases "str_nat n") auto
  then show ?thesis by (auto simp: is_digit_def)
qed

lemma scan_int_str_int:
  assumes "delimited rest" and "length (str_nat (nat \<bar>i\<bar>)) \<le> int_max_str_digits"
  shows "scan_int (str_int i @ rest) = Inr (i, rest)"
proof (cases "i < 0")
  case True
  obtain c cs where s: "str_nat (nat (- i)) = c # cs"
    using str_nat_nonempty [of "nat (- i)"] by (cases "str_nat (nat (- i))") auto
  have "is_digit c" using str_nat_digits [of "nat (- i)"] s by simp
  then have "c \<noteq> CHR ''I''" by (auto simp: is_digit_def)
  then have "strip_prefix ''Infinity'' (str_nat (nat (- i)) @ rest) = None"
    using s by simp
  moreover have "nat \<bar>i\<bar> = nat (- i)" using True by simp
  ultimately show ?thesis using True assms(2)
    by (simp add: scan_int_def str_int_def scan_nat_str_nat [OF assms(1)])
next
  case False
  obtain c cs where s: "str_nat (nat i) = c # cs"
    using str_nat_nonempty [of "nat i"] by (cases "str_nat (nat i)") auto
  have "c \<noteq> CHR ''-''" using str_nat_hd_not_minus [of "nat i"] s by simp
  then have "scan_int (str_nat (nat i) @ rest)
      = (case scan_nat (str_nat (nat i) @ rest) of
           Inl e \<Rightarrow> Inl e | Inr (n, r) \<Rightarrow> Inr (int n, r))"
    using s by (simp add: scan_int_def)
  moreover have "nat \<bar>i\<bar> = nat i" using False by simp
  ultimately show ?thesis using False assms(2)
    by (simp add: str_int_def scan_nat_str_nat [OF assms(1)])
qed

lemma starts_value_str_nat: "starts_value (str_nat n @ r)"
proof -
  obtain c cs where s: "str_nat n = c # cs"
    using str_nat_nonempty [of n] by (cases "str_nat n") auto
  have "is_digit c" using str_nat_digits [of n] s by simp
  then show ?thesis using s by (auto simp: starts_value_def is_digit_def is_ws_def)
qed

lemma starts_value_dumps: "starts_value (json_dumps v @ r)"
proof (cases v)
  case (JNum i)
  then show ?thesis using starts_value_str_nat
    by (simp add: str_int_def) (simp add: starts_value_def is_ws_def)
qed (simp_all add: starts_value_def is_ws_def encode_string_def dquote_def)

lemma skip_ws_starts: "starts_value s \<Longrightarrow> skip_ws s = s"
  by (cases s) (simp_all add: starts_value_def)

lemma skip_ws_dumps: "skip_ws (json_dumps v @ r) = json_dumps v @ r"
  by (rule skip_ws_starts [OF starts_value_dumps])

lemma skip_ws_space_dumps: "skip_ws (CHR '' '' # json_dumps v @ r) = json_dumps v @ r"
  by (simp add: is_ws_def skip_ws_dumps)

lemma delimited_simps:
  "delimited (CHR '','' # r)" "delimited (CHR '']'' # r)" "delimited (CHR ''}'' # r)"
  "delimited []"
  by (simp_all add: delimited_def is_digit_def)

lemma json_dumps_nonempty: "json_dumps v \<noteq> []"
  using starts_value_dumps [of v "[]"] by (auto simp: starts_value_def)

lemma parse_items_roundtrip:
  assumes ih: "\<And>v n rest. v \<in> set vs \<Longrightarrow> length (json_dumps v) \<le> n \<Longrightarrow> delimited rest
            \<Longrightarrow> parse_value n d (json_dumps v @ rest) = Inr (v, rest)"
    and ne: "vs \<noteq> []"
    and len: "length (join_with '', '' (map json_dumps vs)) < m"
  shows "parse_items m d (join_with '', '' (map json_dumps vs) @ CHR '']'' # rest) = Inr (vs, rest)"
  using ih ne len
proof (induction vs arbitrary: m)
  case Nil
  then show ?case by simp
next
  case (Cons v vs)
  obtain m' where m: "m = Suc m'" using Cons.prems(3) by (cases m) auto
  show ?case
  proof (cases vs)
    case Nil
    have "parse_value m' d (json_dumps v @ CHR '']'' # rest) = Inr (v, CHR '']'' # rest)"
      using Cons.prems(3) m Nil by (intro Cons.prems(1)) (simp_all add: delimited_simps)
    then show ?thesis using Nil m by (simp add: is_ws_def)
  next
    case (Cons w ws)
    let ?tail = "join_with '', '' (map json_dumps (w # ws)) @ CHR '']'' # rest"
    have l1: "length (json_dumps v) \<le> m'" and l2: "length (join_with '', '' (map json_dumps vs)) < m'"
      using Cons.prems(3) m Cons json_dumps_nonempty [of v]
      by (auto simp: Suc_le_eq)
    have pv: "parse_value m' d (json_dumps v @ CHR '','' # CHR '' '' # ?tail)
        = Inr (v, CHR '','' # CHR '' '' # ?tail)"
      using l1 by (intro Cons.prems(1)) (simp_all add: delimited_simps)
    have rec: "parse_items m' d ?tail = Inr (vs, rest)"
      using Cons.IH [of m'] Cons.prems(1) l2 Cons by simp
    have sk: "skip_ws (CHR '' '' # ?tail) = ?tail"
      using skip_ws_space_dumps [of w] by (cases ws) simp_all
    show ?thesis using pv rec sk Cons m by (simp add: is_ws_def)
  qed
qed

lemma json_dumps_obj: "json_dumps (JObj kvs) = ''{'' @ join_with '', '' (map dump_pair kvs) @ ''}''"
proof -
  have "(\<lambda>(k, v). encode_string k @ '': '' @ json_dumps v) = dump_pair"
    by (auto simp: dump_pair_def fun_eq_iff)
  then show ?thesis by simp
qed

lemma dump_pair_start: "dump_pair kv @ r = dquote # tl (dump_pair kv @ r)"
  by (simp add: dump_pair_def encode_string_def)

lemma skip_ws_space_pair: "skip_ws (CHR '' '' # dump_pair kv @ r) = dump_pair kv @ r"
  by (simp add: is_ws_def dump_pair_def encode_string_def dquote_def)

lemma length_dump_pair: "length (json_dumps (snd kv)) + 4 \<le> length (dump_pair kv)"
  by (simp add: dump_pair_def encode_string_def)

lemma parse_pairs_step:
  "parse_pairs (Suc n) d (dump_pair (k, v) @ r) =
     (case parse_value n d (json_dumps v @ r) of
        Inl e \<Rightarrow> Inl e
      | Inr (v', r2) \<Rightarrow>
          (case skip_ws r2 of
             [] \<Rightarrow> Inl JSONDecodeError
           | e # r3 \<Rightarrow>
               if e = CHR '','' then
                 (case parse_pairs n d (skip_ws r3) of
                    Inl e \<Rightarrow> Inl e
                  | Inr (kvs, r4) \<Rightarrow> Inr ((k, v') # kvs, r4))
               else if e = CHR ''}'' then Inr ([(k, v')], r3)
               else Inl JSONDecodeError))"
  by (simp add: dump_pair_def encode_string_def scanstring_concat is_ws_def skip_ws_dumps)

lemma parse_pairs_roundtrip:
  assumes ih: "\<And>kv n rest. kv \<in> set kvs \<Longrightarrow> length (json_dumps (snd kv)) \<le> n \<Longrightarrow> delimited rest
            \<Longrightarrow> parse_value n d (json_dumps (snd kv) @ rest) = Inr (snd kv, rest)"
    and ne: "kvs \<noteq> []"
    and len: "length (join_with '', '' (map dump_pair kvs)) < m"
  shows "parse_pairs m d (join_with '', '' (map dump_pair kvs) @ CHR ''}'' # rest) = Inr (kvs, rest)"
  using ih ne len
proof (induction kvs arbitrary: m)
  case Nil
  then show ?case by simp
next
  case (Cons kv kvs)
  obtain m' where m: "m = Suc m'" using Cons.prems(3) by (cases m) auto
  obtain k v where kv: "kv = (k, v)" by (cases kv)
  have key: "\<And>r. scanstring (concat (map escape_char k) @ dquote # r) = Inr (k, r)"
    by (rule scanstring_concat)
  show ?case
  proof (cases kvs)
    case Nil
    have l1: "length (json_dumps v) \<le> m'"
      using Cons.prems(3) m Nil kv length_dump_pair [of kv] by simp
    have pv: "parse_value m' d (json_dumps v @ CHR ''}'' # rest) = Inr (v, CHR ''}'' # rest)"
      using Cons.prems(1) [of kv m' "CHR ''}'' # rest"] l1 kv by (simp add: delimited_simps)
    have "parse_pairs (Suc m') d (dump_pair (k, v) @ CHR ''}'' # rest) = Inr ([(k, v)], rest)"
      by (simp only: parse_pairs_step pv) (simp add: is_ws_def)
    then show ?thesis using Nil m kv by simp
  next
    case (Cons w ws)
    let ?tail = "join_with '', '' (map dump_pair (w # ws)) @ CHR ''}'' # rest"
    have l1: "length (json_dumps v) \<le> m'"
      and l2: "length (join_with '', '' (map dump_pair kvs)) < m'"
      using Cons.prems(3) m Cons kv length_dump_pair [of kv] by auto
    have pv: "parse_value m' d (json_dumps v @ CHR '','' # CHR '' '' # ?tail)
        = Inr (v, CHR '','' # CHR '' '' # ?tail)"
      using Cons.prems(1) [of kv m' "CHR '','' # CHR '' '' # ?tail"] l1 kv
      by (simp add: delimited_simps)
    have rec: "parse_pairs m' d ?tail = Inr (kvs, rest)"
      using Cons.IH [of m'] Cons.prems(1) l2 Cons by simp
    have sk: "skip_ws (CHR '' '' # ?tail) = ?tail"
      using skip_ws_space_pair [of w] by (cases ws) simp_all
    have sk2: "skip_ws ?tail = ?tail" using sk by (simp add: is_ws_def del: join_with.simps)
    have "parse_pairs (Suc m') d (dump_pair (k, v) @ CHR '','' # CHR '' '' # ?tail)
        = Inr ((k, v) # kvs, rest)"
      using sk2 rec
      by (simp only: parse_pairs_step pv) (simp add: is_ws_def del: join_with.simps)
    then show ?thesis using Cons m kv by simp
  qed
qed

lemma dict_set_fresh: "k \<notin> fst ` set d \<Longrightarrow> dict_set k v d = d @ [(k, v)]"
  by (induction d) auto

lemma dict_of_pairs_distinct:
  "distinct (map fst (acc @ kvs)) \<Longrightarrow> foldl (\<lambda>d (k, v). dict_set k v d) acc kvs = acc @ kvs"
proof (induction kvs arbitrary: acc)
  case Nil
  then show ?case by simp
next
  case (Cons kv kvs)
  obtain k v where kv: "kv = (k, v)" by (cases kv)
  have "k \<notin> fst ` set acc" using Cons.prems kv by auto
  then have "dict_set k v acc = acc @ [(k, v)]" by (rule dict_set_fresh)
  moreover have "distinct (map fst ((acc @ [(k, v)]) @ kvs))" using Cons.prems kv by simp
  ultimately show ?case using Cons.IH [of "acc @ [(k, v)]"] kv by simp
qed

lemma parse_value_roundtrip:
  "wf_json v \<Longrightarrow> within_limits d v \<Longrightarrow> length (json_dumps v) \<le> n \<Longrightarrow> delimited rest
     \<Longrightarrow> parse_value n d (json_dumps v @ rest) = Inr (v, rest)"
proof (induction v arbitrary: n d rest)
  case JNull
  then obtain n' where "n = Suc n'" by (cases n) auto
  then show ?case by (simp add: dquote_def scan_word_def)
next
  case (JBool b)
  then obtain n' where "n = Suc n'" by (cases n; cases b) auto
  then show ?case by (simp add: dquote_def scan_word_def)
next
  case (JNum i)
  have "json_dumps (JNum i) \<noteq> []" by (rule json_dumps_nonempty)
  then obtain n' where n: "n = Suc n'" using JNum.prems(3) by (cases n) auto
  obtain c cs where s: "str_int i = c # cs"
    using str_nat_nonempty by (cases "str_int i") (auto simp: str_int_def split: if_splits)
  have "c = CHR ''-'' \<or> is_digit c"
    using s str_nat_digits [of "nat i"] str_nat_nonempty [of "nat i"]
    by (cases "str_nat (nat i)") (auto simp: str_int_def split: if_splits)
  then have c: "c \<noteq> dquote" "c \<noteq> CHR ''[''" "c \<noteq> CHR ''{''" "c \<noteq> CHR ''n''"
    "c \<noteq> CHR ''t''" "c \<noteq> CHR ''f''" "c \<noteq> CHR ''N''" "c \<noteq> CHR ''I''"
    by (auto simp: is_digit_def dquote_def)
  have lim: "length (str_nat (nat \<bar>i\<bar>)) \<le> int_max_str_digits"
    using JNum.prems(2) by simp
  have "parse_value (Suc n') d (c # cs @ rest)
      = (case scan_int (c # cs @ rest) of Inl e \<Rightarrow> Inl e | Inr (i, r) \<Rightarrow> Inr (JNum i, r))"
    using c by simp
  then show ?case using n s scan_int_str_int [OF JNum.prems(4) lim] by simp
next
  case (JStr s)
  then obtain n' where "n = Suc n'" by (cases n) (auto simp: encode_string_def)
  then show ?case by (simp add: encode_string_def scanstring_concat)
next
  case (JArr vs)
  then obtain n' where n: "n = Suc n'" by (cases n) auto
  have d: "d \<noteq> 0" using JArr.prems(2) by simp
  show ?case
  proof (cases vs)
    case Nil
    then show ?thesis using n d by (simp add: dquote_def is_ws_def)
  next
    case (Cons w ws)
    let ?body = "join_with '', '' (map json_dumps vs)"
    have len: "length ?body < n'" using JArr.prems(3) n by simp
    have items: "parse_items n' (d - 1) (?body @ CHR '']'' # rest) = Inr (vs, rest)"
    proof (rule parse_items_roundtrip)
      fix v m r
      assume "v \<in> set vs" "length (json_dumps v) \<le> m" "delimited r"
      then show "parse_value m (d - 1) (json_dumps v @ r) = Inr (v, r)"
        using JArr.IH [of v "d - 1" m r] JArr.prems(1,2) by simp
    qed (use Cons len in simp_all)
    obtain x r where dr: "?body @ CHR '']'' # rest = x # r" "x \<noteq> CHR '']''" "\<not> is_ws x"
      using starts_value_dumps [of w "[]"] Cons
      by (cases "json_dumps w"; cases ws) (auto simp: starts_value_def)
    then show ?thesis using n d items by (simp add: dquote_def)
  qed
next
  case (JObj kvs)
  then obtain n' where n: "n = Suc n'" by (cases n) auto
  have d: "d \<noteq> 0" using JObj.prems(2) by simp
  have dist: "distinct (map fst kvs)" using JObj.prems(1) by simp
  show ?case
  proof (cases kvs)
    case Nil
    then show ?thesis using n d by (simp add: dquote_def is_ws_def)
  next
    case (Cons w ws)
    let ?body = "join_with '', '' (map dump_pair kvs)"
    have len: "length ?body < n'"
      using JObj.prems(3) n by (simp add: json_dumps_obj del: json_dumps.simps(6))
    have pairs: "parse_pairs n' (d - 1) (?body @ CHR ''}'' # rest) = Inr (kvs, rest)"
    proof (rule parse_pairs_roundtrip)
      fix kv m r
      assume a: "kv \<in> set kvs" "length (json_dumps (snd kv)) \<le> m" "delimited r"
      have "snd kv \<in> Basic_BNFs.snds kv" by (cases kv) simp
      then show "parse_value m (d - 1) (json_dumps (snd kv) @ r) = Inr (snd kv, r)"
        using JObj.IH [of kv "snd kv" "d - 1" m r] JObj.prems(1,2) a by simp
    qed (use Cons len in simp_all)
    obtain r where dr: "?body @ CHR ''}'' # rest = dquote # r"
      using dump_pair_start [of w] Cons by (cases ws) auto
    have "foldl (\<lambda>d (k, v). dict_set k v d) [] kvs = kvs"
      using dict_of_pairs_distinct [of "[]" kvs] dist by simp
    then show ?thesis using n d pairs dr
      by (simp add: json_dumps_obj dquote_def is_ws_def del: json_dumps.simps(6))
  qed
qed

theorem json_roundtrip:
  "wf_json v \<Longrightarrow> within_limits limit v \<Longrightarrow> json_loads limit (json_dumps v) = Inr v"
  using parse_value_roundtrip [of v limit "2 * length (json_dumps v) + 1" "[]"]
  by (simp add: json_loads_def skip_ws_dumps [of v "[]", simplified] delimited_simps)

lemma contains_empty: "contains [] s"
  by (cases s) simp_all

lemma cells_filter_row: "cells (filter_row st rw) = cells rw"
  by (simp add: filter_row_def split: option.splits)

lemma filter_asset_row_nth:
  assumes "r < length tbl"
  shows "filter_asset_row st r tbl = tbl[r := filter_row st (tbl ! r)]"
proof (cases "0 < length (cells (tbl ! r))")
  case True
  then show ?thesis using assms
    by (cases "cells (tbl ! r) ! 0")
       (simp_all add: filter_asset_row_def item_def filter_row_def set_row_hidden_def)
next
  case False
  then show ?thesis using assms
    by (simp add: filter_asset_row_def item_def filter_row_def)
qed

lemma fold_filter_asset_row:
  "n \<le> length tbl \<Longrightarrow>
     fold (filter_asset_row st) [0..<n] tbl = map (filter_row st) (take n tbl) @ drop n tbl"
proof (induction n)
  case 0
  then show ?case by simp
next
  case (Suc n)
  let ?t = "map (filter_row st) (take n tbl) @ drop n tbl"
  have n: "n < length tbl" using Suc.prems by simp
  have len: "length ?t = length tbl" using n by simp
  have nth: "?t ! n = tbl ! n" using n by (simp add: nth_append)
  have "fold (filter_asset_row st) [0..<Suc n] tbl = filter_asset_row st n ?t"
    using Suc by simp
  also have "\<dots> = ?t[n := filter_row st (tbl ! n)]"
    using filter_asset_row_nth [of n ?t st] n len nth by simp
  also have "\<dots> = map (filter_row st) (take (Suc n) tbl) @ drop (Suc n) tbl"
    using n by (simp add: take_Suc_conv_app_nth list_update_append Cons_nth_drop_Suc [symmetric])
  finally show ?case .
qed

lemma filter_assets_table:
  "imported_assets_table (filter_assets w)
     = map (filter_row (lower (asset_search_bar w))) (imported_assets_table w)"
  by (simp add: filter_assets_def fold_filter_asset_row)

text \<open>
  Claim C10. \<^verbatim>\<open>filter_assets\<close> (the same code in both files) only shows and
  hides rows. The state after it is the state before it with another assets table; that table
  has as many rows, and each row has the cells it had; the asset records, the settings and the
  file system are the same. With an empty search text, every row that has an item in the
  first column ends up shown.
\<close>

theorem filter_assets_view_only:
  "filter_assets w = w\<lparr>imported_assets_table := imported_assets_table (filter_assets w)\<rparr>
   \<and> length (imported_assets_table (filter_assets w)) = length (imported_assets_table w)
   \<and> map cells (imported_assets_table (filter_assets w)) = map cells (imported_assets_table w)
   \<and> imported_assets (filter_assets w) = imported_assets w
   \<and> registry (filter_assets w) = registry w
   \<and> fs (filter_assets w) = fs w
   \<and> (asset_search_bar w = [] \<longrightarrow>
        (\<forall>r < length (imported_assets_table w).
           item (imported_assets_table w) (int r) 0 \<noteq> None
             \<longrightarrow> \<not> hidden (imported_assets_table (filter_assets w) ! r)))"
proof -
  have frame: "filter_assets w = w\<lparr>imported_assets_table := imported_assets_table (filter_assets w)\<rparr>"
    by (simp add: filter_assets_def)
  have cells: "map cells (imported_assets_table (filter_assets w)) = map cells (imported_assets_table w)"
    by (simp add: filter_assets_table cells_filter_row comp_def)
  have len: "length (imported_assets_table (filter_assets w)) = length (imported_assets_table w)"
    by (simp add: filter_assets_table)
  have others: "imported_assets (filter_assets w) = imported_assets w"
    "registry (filter_assets w) = registry w" "fs (filter_assets w) = fs w"
    by (simp_all add: filter_assets_def)
  have shown: "\<not> hidden (imported_assets_table (filter_assets w) ! r)"
    if e: "asset_search_bar w = []" and r: "r < length (imported_assets_table w)"
      and i: "item (imported_assets_table w) (int r) 0 \<noteq> None" for r
  proof -
    obtain a where "cells (imported_assets_table w ! r) ! 0 = Some a"
      and "0 < length (cells (imported_assets_table w ! r))"
      using i r by (auto simp: item_def split: if_splits)
    then show ?thesis using e r
      by (simp add: filter_assets_table filter_row_def lower_def contains_empty)
  qed
  show ?thesis using frame cells len others shown by blast
qed

text \<open>
  An instance: the example world has an empty search text and a hidden row named
  \<^verbatim>\<open>Clip.MOV\<close>; after \<^verbatim>\<open>filter_assets\<close> the row is shown and
  the cells of the table are the same.
\<close>

theorem filter_assets_view_only_witness:
  "asset_search_bar demo_world = []
   \<and> item (imported_assets_table demo_world) 0 0 = Some ''Clip.MOV''
   \<and> hidden (imported_assets_table demo_world ! 0)
   \<and> \<not> hidden (imported_assets_table (filter_assets demo_world) ! 0)
   \<and> map cells (imported_assets_table (filter_assets demo_world)) = map cells example_table"
proof -
  have e: "asset_search_bar demo_world = []" by (simp add: demo_world_def)
  have t: "imported_assets_table demo_world = example_table" by (simp add: demo_world_def)
  have i: "item example_table 0 0 = Some ''Clip.MOV''"
    by (simp add: example_table_def item_def)
  have h: "hidden (example_table ! 0)" by (simp add: example_table_def)
  have l: "0 < length example_table" by (simp add: example_table_def)
  note base = filter_assets_view_only [of demo_world]
  from base e have "\<forall>r < length (imported_assets_table demo_world).
      item (imported_assets_table demo_world) (int r) 0 \<noteq> None
        \<longrightarrow> \<not> hidden (imported_assets_table (filter_assets demo_world) ! r)"
    by blast
  then have "\<not> hidden (imported_assets_table (filter_assets demo_world) ! 0)"
    using t i l by auto
  moreover from base have "map cells (imported_assets_table (filter_assets demo_world))
      = map cells example_table" using t by simp
  ultimately show ?thesis using e t i h by simp
qed

lemma any_process_named_iff:
  "any_process_named n procs \<longleftrightarrow> (\<exists>name \<in> set procs. contains n name)"
  by (induction procs) auto

lemma is_after_effects_running_iff:
  "is_after_effects_running w \<longleftrightarrow> (\<exists>name \<in> set (processes w). contains ''AfterFX.exe'' name)"
  by (simp add: is_after_effects_running_def any_process_named_iff)

text \<open>
  Claim C3. \<^verbatim>\<open>import_file_connection\<close> of \<^verbatim>\<open>py_ae_v3.py\<close> first
  looks for a running process whose name contains \<^verbatim>\<open>AfterFX.exe\<close>. When
  there is none, it shows the error message and returns: the state is the one before, with
  that message added. So whenever a file was copied or written, a thread started, or the
  assets table, the asset records or the settings changed, such a process was running.
\<close>

theorem import_requires_running_after_effects:
  "(\<not> (\<exists>name \<in> set (processes w). contains ''AfterFX.exe'' name) \<longrightarrow>
      import_file_connection_v3 chosen_file w =
        (Returned,
         w\<lparr>dialogs := dialogs w @
              [ErrorMessage ''After Effects Not Running''
                 ''Adobe After Effects must be open to import assets.'']\<rparr>))
   \<and> ((\<exists>p. fs (snd (import_file_connection_v3 chosen_file w)) p \<noteq> fs w p)
        \<or> threads (snd (import_file_connection_v3 chosen_file w)) \<noteq> threads w
        \<or> imported_assets_table (snd (import_file_connection_v3 chosen_file w))
             \<noteq> imported_assets_table w
        \<or> imported_assets (snd (import_file_connection_v3 chosen_file w)) \<noteq> imported_assets w
        \<or> (\<exists>k. registry (snd (import_file_connection_v3 chosen_file w)) k \<noteq> registry w k)
      \<longrightarrow> (\<exists>name \<in> set (processes w). contains ''AfterFX.exe'' name))"
proof -
  have stop: "import_file_connection_v3 chosen_file w =
        (Returned,
         w\<lparr>dialogs := dialogs w @
              [ErrorMessage ''After Effects Not Running''
                 ''Adobe After Effects must be open to import assets.'']\<rparr>)"
    if "\<not> (\<exists>name \<in> set (processes w). contains ''AfterFX.exe'' name)"
    using that
    by (simp add: import_file_connection_v3_def is_after_effects_running_iff
        show_error_message_def)
  have "\<exists>name \<in> set (processes w). contains ''AfterFX.exe'' name"
    if change: "(\<exists>p. fs (snd (import_file_connection_v3 chosen_file w)) p \<noteq> fs w p)
        \<or> threads (snd (import_file_connection_v3 chosen_file w)) \<noteq> threads w
        \<or> imported_assets_table (snd (import_file_connection_v3 chosen_file w))
             \<noteq> imported_assets_table w
        \<or> imported_assets (snd (import_file_connection_v3 chosen_file w)) \<noteq> imported_assets w
        \<or> (\<exists>k. registry (snd (import_file_connection_v3 chosen_file w)) k \<noteq> registry w k)"
  proof (rule ccontr)
    assume "\<not> (\<exists>name \<in> set (processes w). contains ''AfterFX.exe'' name)"
    then have "import_file_connection_v3 chosen_file w =
        (Returned,
         w\<lparr>dialogs := dialogs w @
              [ErrorMessage ''After Effects Not Running''
                 ''Adobe After Effects must be open to import assets.'']\<rparr>)"
      by (rule stop)
    then show False using change by simp
  qed
  then show ?thesis using stop by blast
qed

text \<open>
  An instance of each half: a world where only other programs run, where the import ends
  with the error message; and the example world, where After Effects runs and the import
  starts a worker thread.
\<close>

theorem import_requires_running_after_effects_witness:
  "import_file_connection_v3 ''C:/footage/Clip.MOV'' idle_world =
     (Returned,
      idle_world\<lparr>dialogs := [ErrorMessage ''After Effects Not Running''
                                  ''Adobe After Effects must be open to import assets.'']\<rparr>)
   \<and> threads (snd (import_file_connection_v3 ''C:/footage/Clip.MOV'' demo_world))
        \<noteq> threads demo_world
   \<and> (\<exists>name \<in> set (processes demo_world). contains ''AfterFX.exe'' name)"
proof -
  have idle: "\<not> (\<exists>name \<in> set (processes idle_world). contains ''AfterFX.exe'' name)"
    by (simp add: idle_world_def)
  have d: "dialogs idle_world = []"
    by (simp add: idle_world_def demo_world_def)
  have one: "import_file_connection_v3 ''C:/footage/Clip.MOV'' idle_world =
     (Returned,
      idle_world\<lparr>dialogs := [ErrorMessage ''After Effects Not Running''
                                  ''Adobe After Effects must be open to import assets.'']\<rparr>)"
    using import_requires_running_after_effects
            [where w = idle_world and chosen_file = "''C:/footage/Clip.MOV''"] idle d
    by simp
  have two: "threads (snd (import_file_connection_v3 ''C:/footage/Clip.MOV'' demo_world))
        \<noteq> threads demo_world"
    by code_simp
  have three: "\<exists>name \<in> set (processes demo_world). contains ''AfterFX.exe'' name"
    using import_requires_running_after_effects
            [where w = demo_world and chosen_file = "''C:/footage/Clip.MOV''"] two
    by blast
  show ?thesis using one two three by blast
qed

lemma Path_idem: "Path (Path s) = Path s"
  by (simp add: Path_def)

lemma collect_error: "collect xs = Inl e \<Longrightarrow> Inl e \<in> set xs"
  by (induction xs) (auto split: sum.splits)

lemma collect_all_Inr: "collect (map Inr xs) = Inr xs"
  by (induction xs) simp_all


lemma comprehension_total:
  "(\<And>x. x \<in> set xs \<Longrightarrow> c x = Inr (b x)) \<Longrightarrow> comprehension c xs = Inr (filter b xs)"
  by (induction xs) auto

lemma comprehension_info:
  "\<forall>e \<in> set es. is_info e \<Longrightarrow>
     comprehension (entry_exists f) es = Inr (filter (entry_on_disk f) es)"
proof (rule comprehension_total)
  fix x assume "\<forall>e \<in> set es. is_info e" "x \<in> set es"
  then have "is_info x" by simp
  then show "entry_exists f x = Inr (entry_on_disk f x)" by (cases x) simp_all
qed

lemma comprehension_sublist:
  "comprehension c xs = Inr ys \<Longrightarrow> set ys \<subseteq> set xs"
  by (induction xs arbitrary: ys) (auto split: sum.splits if_splits)

lemma comprehension_exists:
  "comprehension (entry_exists f) es = Inr ys \<Longrightarrow> ys = filter (entry_on_disk f) es"
proof (induction es arbitrary: ys)
  case Nil
  then show ?case by simp
next
  case (Cons e es)
  then show ?case by (cases e) (auto split: sum.splits if_splits)
qed

lemma save_settings_frame:
  "snd (save_settings w) = w\<lparr>registry := registry (snd (save_settings w))\<rparr>"
  by (simp add: save_settings_def split: sum.splits)


lemma save_settings_info:
  "\<forall>e \<in> set (last_project_files w). is_info e \<Longrightarrow> fst (save_settings w) = Returned"
proof (rule ccontr)
  assume a: "\<forall>e \<in> set (last_project_files w). is_info e" and "fst (save_settings w) \<noteq> Returned"
  then obtain e where c: "collect (map serialize_project (last_project_files w)) = Inl e"
    by (auto simp: save_settings_def split: sum.splits)
  from collect_error [OF c] obtain x where x: "x \<in> set (last_project_files w)"
    "serialize_project x = Inl e" by auto
  then have "is_info x" using a by simp
  then show False using x(2) by (cases x) simp_all
qed


lemma row_on_disk_new_row:
  "row_on_disk f (new_row (Some a # Some p # rest)) = path_exists f (Path p)"
  by (simp add: row_on_disk_def row_path_def new_row_def)

lemma insert_project_rows_on_disk:
  "insert_project_rows f es tbl = (r, t) \<Longrightarrow> \<forall>rw \<in> set tbl. row_on_disk f rw
     \<Longrightarrow> \<forall>rw \<in> set t. row_on_disk f rw"
proof (induction f es tbl arbitrary: r t rule: insert_project_rows.induct)
  case (1 f tbl)
  then show ?case by simp
next
  case (2 f p es tbl)
  then show ?case by simp
next
  case (3 f p es tbl)
  show ?case
  proof (cases "f (Path (path p))")
    case None
    then show ?thesis using 3 by simp
  next
    case (Some nd)
    have here: "path_exists f (Path (Path (path p)))"
      using Some by (simp add: path_exists_def Path_idem)
    show ?thesis
    proof (cases "created_by p")
      case (JStr who)
      have "\<forall>rw \<in> set (tbl @ [new_row [Some (basename (Path (path p))), Some (Path (path p)),
                                  Some (format_time (mtime nd)), Some who, None]]).
              row_on_disk f rw"
        using 3(3) here by (simp add: row_on_disk_new_row)
      then show ?thesis using 3(1) [OF Some JStr] 3(2) Some JStr by simp
    qed (use 3 Some here in \<open>auto simp: row_on_disk_new_row\<close>)
  qed
qed


lemma insert_project_rows_named:
  "\<forall>e \<in> set es. named_creator e \<and> entry_on_disk f e \<Longrightarrow>
     \<exists>t. insert_project_rows f es tbl = (None, t)"
proof (induction f es tbl rule: insert_project_rows.induct)
  case (3 f p es tbl)
  then show ?case by (auto simp: path_exists_def split: option.splits json.splits)
qed simp_all

lemma populate_frame:
  "snd (populate_last_projects_table w) =
     w\<lparr>last_projects_table := last_projects_table (snd (populate_last_projects_table w)),
       last_project_files := last_project_files (snd (populate_last_projects_table w)),
       registry := registry (snd (populate_last_projects_table w))\<rparr>"
  by (simp add: populate_last_projects_table_def save_settings_def Let_def
      split: sum.splits prod.splits option.splits)

lemma populate_unfold:
  assumes "comprehension (entry_exists (fs w)) (last_project_files w) = Inr ex"
    and "insert_project_rows (fs w) ex [] = (r, t)"
  shows "populate_last_projects_table w =
     (case r of
        Some e \<Rightarrow> (Raised e, w\<lparr>last_project_files := ex, last_projects_table := t\<rparr>)
      | None \<Rightarrow> save_settings (w\<lparr>last_project_files := ex, last_projects_table := t\<rparr>))"
  using assms by (simp add: populate_last_projects_table_def Let_def split: option.splits)

lemma save_settings_fields:
  "last_project_files (snd (save_settings w)) = last_project_files w"
  "last_projects_table (snd (save_settings w)) = last_projects_table w"
  "imported_assets (snd (save_settings w)) = imported_assets w"
  "fs (snd (save_settings w)) = fs w"
  by (subst save_settings_frame, simp)+

lemma populate_fs: "fs (snd (populate_last_projects_table w)) = fs w"
  by (subst populate_frame) simp

lemma populate_imported_assets:
  "imported_assets (snd (populate_last_projects_table w)) = imported_assets w"
  by (subst populate_frame) simp

lemma populate_rows_on_disk:
  "\<forall>rw \<in> set (last_projects_table (snd (populate_last_projects_table w))). row_on_disk (fs w) rw"
proof (cases "comprehension (entry_exists (fs w)) (last_project_files w)")
  case (Inl e)
  then show ?thesis by (simp add: populate_last_projects_table_def)
next
  case (Inr ex)
  obtain r t where i: "insert_project_rows (fs w) ex [] = (r, t)"
    by (cases "insert_project_rows (fs w) ex []")
  have t: "\<forall>rw \<in> set t. row_on_disk (fs w) rw"
    using insert_project_rows_on_disk [OF i] by simp
  have "last_projects_table (snd (populate_last_projects_table w)) = t"
    by (cases r) (simp_all add: populate_unfold [OF Inr i] save_settings_fields)
  then show ?thesis using t by simp
qed

lemma populate_files:
  assumes "comprehension (entry_exists (fs w)) (last_project_files w) = Inr ex"
  shows "last_project_files (snd (populate_last_projects_table w)) = ex"
proof -
  obtain r t where i: "insert_project_rows (fs w) ex [] = (r, t)"
    by (cases "insert_project_rows (fs w) ex []")
  show ?thesis
    by (cases r) (simp_all add: populate_unfold [OF assms i] save_settings_fields)
qed

lemma populate_files_info:
  "\<forall>e \<in> set (last_project_files w). is_info e \<Longrightarrow>
     last_project_files (snd (populate_last_projects_table w))
       = filter (entry_on_disk (fs w)) (last_project_files w)"
  by (rule populate_files) (rule comprehension_info)


lemma named_creator_info: "named_creator e \<Longrightarrow> is_info e"
  by (cases e) simp_all

lemma populate_named_returns:
  assumes "\<forall>e \<in> set (last_project_files w). named_creator e"
  shows "fst (populate_last_projects_table w) = Returned"
proof -
  let ?ex = "filter (entry_on_disk (fs w)) (last_project_files w)"
  have info: "\<forall>e \<in> set (last_project_files w). is_info e"
    using assms named_creator_info by blast
  have c: "comprehension (entry_exists (fs w)) (last_project_files w) = Inr ?ex"
    using info by (rule comprehension_info)
  have "\<forall>e \<in> set ?ex. named_creator e \<and> entry_on_disk (fs w) e" using assms by simp
  then obtain t where i: "insert_project_rows (fs w) ?ex [] = (None, t)"
    using insert_project_rows_named by blast
  have "\<forall>e \<in> set ?ex. is_info e" using info by simp
  then have "fst (save_settings (w\<lparr>last_project_files := ?ex, last_projects_table := t\<rparr>)) = Returned"
    by (intro save_settings_info) simp
  then show ?thesis by (simp add: populate_unfold [OF c i])
qed





lemma demo_files:
  "last_project_files demo_world =
     [Info \<lparr>path = ''C:/projects/intro.aep'', created_by = JStr ''marty''\<rparr>,
      Info \<lparr>path = ''C:/projects/gone.aep'', created_by = JStr ''bob''\<rparr>]"
  by (simp add: demo_world_def)

lemma demo_fs_lookup:
  "demo_fs ''C:/projects/intro.aep'' = Some (File ''RIFX'' 4)"
  "demo_fs ''C:/projects/gone.aep'' = None"
  by (simp_all add: demo_fs_def)




lemma project_of_json_info: "project_of_json x = Inr p \<Longrightarrow> is_info p"
  by (cases x) (auto split: option.splits json.splits)



lemma collect_Inr_all:
  "collect xs = Inr ys \<Longrightarrow> xs = map Inr ys"
  by (induction xs arbitrary: ys) (auto split: sum.splits)

lemma load_project_files_info:
  "load_project_files limit s = Inr ps \<Longrightarrow> \<forall>p \<in> set ps. is_info p"
proof -
  assume l: "load_project_files limit s = Inr ps"
  show ?thesis
  proof (cases "json_loads limit s")
    case (Inl e)
    then show ?thesis using l by (auto simp: load_project_files_def split: if_splits)
  next
    case (Inr v)
    then obtain xs where "iterate v = Inr xs"
      and c: "collect (map project_of_json (filter is_dict xs)) = Inr ps"
      using l by (auto simp: load_project_files_def split: sum.splits)
    have m: "map project_of_json (filter is_dict xs) = map Inr ps"
      using c by (rule collect_Inr_all)
    show ?thesis
    proof
      fix p assume "p \<in> set ps"
      then have "Inr p \<in> set (map project_of_json (filter is_dict xs))"
        using m by simp
      then obtain x where "project_of_json x = Inr p" by auto
      then show "is_info p" by (rule project_of_json_info)
    qed
  qed
qed






lemma add_asset_rows_frame:
  "snd (add_asset_rows xs w) = w\<lparr>imported_assets_table := imported_assets_table (snd (add_asset_rows xs w))\<rparr>"
proof (induction xs arbitrary: w)
  case Nil
  then show ?case by simp
next
  case (Cons asset assets)
  show ?case
  proof (cases "asset_arguments asset")
    case (Inl e')
    then show ?thesis by simp
  next
    case (Inr args)
    obtain n p lm who where args: "args = (n, p, lm, who)" by (cases args) auto
    obtain r t where pt: "populate_imported_assets_table n p lm who (imported_assets_table w) = (r, t)"
      by (cases "populate_imported_assets_table n p lm who (imported_assets_table w)")
    show ?thesis
    proof (cases r)
      case None
      have "snd (add_asset_rows assets (w\<lparr>imported_assets_table := t\<rparr>)) =
          w\<lparr>imported_assets_table := t\<rparr>
            \<lparr>imported_assets_table :=
               imported_assets_table (snd (add_asset_rows assets (w\<lparr>imported_assets_table := t\<rparr>)))\<rparr>"
        by (rule Cons.IH)
      then show ?thesis using Inr args pt None by simp
    next
      case (Some e')
      then show ?thesis using Inr args pt by simp
    qed
  qed
qed

lemma load_settings_unfold:
  assumes "load_project_files (recursion_limit w)
             (settings_value w ''last_project_files'' ''[]'') = Inr ps"
    and "load_imported_assets (recursion_limit w)
             (settings_value w ''imported_assets'' ''[]'') = Inr assets"
  shows "load_settings w =
     and_then
       (populate_last_projects_table
          (w\<lparr>last_project_files := ps, imported_assets := assets,
             last_projects_table := [], imported_assets_table := []\<rparr>))
       (\<lambda>w3. case iterate (imported_assets w3) of
               Inl e \<Rightarrow> (Raised e, w3)
             | Inr xs \<Rightarrow> add_asset_rows xs w3)"
  using assms by (simp add: load_settings_def Let_def)

lemma load_settings_projects_raise:
  assumes "load_project_files (recursion_limit w)
             (settings_value w ''last_project_files'' ''[]'') = Inl e"
  shows "load_settings w = (Raised e, w)"
  using assms by (simp add: load_settings_def)


lemma and_then_cases:
  "and_then r k = (case fst r of Returned \<Rightarrow> k (snd r) | Raised e \<Rightarrow> (Raised e, snd r))"
  by (cases r) (simp add: and_then_def split: outcome.splits)

lemma load_settings_lists:
  assumes lp: "load_project_files (recursion_limit w)
             (settings_value w ''last_project_files'' ''[]'') = Inr ps"
    and la: "load_imported_assets (recursion_limit w)
             (settings_value w ''imported_assets'' ''[]'') = Inr assets"
  shows "last_project_files (snd (load_settings w)) = filter (entry_on_disk (fs w)) ps"
    and "imported_assets (snd (load_settings w)) = assets"
proof -
  let ?w2 = "w\<lparr>last_project_files := ps, imported_assets := assets,
             last_projects_table := [], imported_assets_table := []\<rparr>"
  let ?p = "populate_last_projects_table ?w2"
  have info: "\<forall>e \<in> set (last_project_files ?w2). is_info e"
    using load_project_files_info [OF lp] by simp
  have files: "last_project_files (snd ?p) = filter (entry_on_disk (fs w)) ps"
    using populate_files_info [OF info] by simp
  have assets: "imported_assets (snd ?p) = assets"
    by (simp add: populate_imported_assets)
  have rows: "last_project_files (snd (add_asset_rows xs (snd ?p))) = last_project_files (snd ?p)"
    "imported_assets (snd (add_asset_rows xs (snd ?p))) = imported_assets (snd ?p)" for xs
    by (subst add_asset_rows_frame, simp)+
  show "last_project_files (snd (load_settings w)) = filter (entry_on_disk (fs w)) ps"
    using files rows
    by (simp add: load_settings_unfold [OF lp la] and_then_cases
        split: outcome.splits sum.splits)
  show "imported_assets (snd (load_settings w)) = assets"
    using assets rows
    by (simp add: load_settings_unfold [OF lp la] and_then_cases
        split: outcome.splits sum.splits)
qed






lemma skip_ws_brackets: "skip_ws (replicate k (CHR ''['')) = replicate k (CHR ''['')"
  by (cases k) (simp_all add: is_ws_def)

lemma deep_brackets:
  "d < k \<Longrightarrow> 2 * d < n \<Longrightarrow> parse_value n d (replicate k (CHR ''['')) = Inl RecursionError"
proof (induction d arbitrary: k n)
  case 0
  then obtain n' k' where "n = Suc n'" "k = Suc k'" by (cases n; cases k) auto
  then show ?case by (simp add: dquote_def)
next
  case (Suc d)
  have "2 \<le> n" "2 \<le> k" using Suc.prems by simp_all
  then obtain n2 k2 where n: "n = Suc (Suc n2)" and k: "k = Suc (Suc k2)"
    by (metis add_2_eq_Suc le_Suc_ex)
  have "parse_value n2 d (replicate (Suc k2) (CHR ''['')) = Inl RecursionError"
    using Suc.prems n k by (intro Suc.IH) simp_all
  then show ?case by (simp add: n k dquote_def is_ws_def)
qed

lemma json_loads_deep_brackets:
  "limit < k \<Longrightarrow> json_loads limit (replicate k (CHR ''['')) = Inl RecursionError"
  using deep_brackets [of limit k "2 * length (replicate k (CHR ''['')) + 1"]
  by (simp add: json_loads_def skip_ws_brackets del: parse_value.simps)



lemma deep_text_raises: "json_loads 990 deep_text = Inl RecursionError"
  unfolding deep_text_def by (rule json_loads_deep_brackets) simp

lemma demo_limit:
  "recursion_limit demo_world = 990"
  "recursion_limit bad_settings_world = 990"
  "recursion_limit mixed_settings_world = 990"
  "recursion_limit deep_settings_world = 990"
  "recursion_limit deep_assets_world = 990"
  by (simp_all add: demo_world_def bad_settings_world_def mixed_settings_world_def
      deep_settings_world_def deep_assets_world_def)


text \<open>
  Claim C9 as stated does not hold for every stored text. A saved project list of 1200
  opening brackets is not valid JSON, but with 990 levels left \<^verbatim>\<open>json.loads\<close>
  raises \<open>RecursionError\<close> before it reaches the end of the text;
  \<^verbatim>\<open>except json.JSONDecodeError\<close> does not catch it, so
  \<^verbatim>\<open>load_settings\<close> raises and the list in memory keeps its two records.
\<close>

theorem load_settings_propagates_recursion_error:
  "settings_value deep_settings_world ''last_project_files'' ''[]'' = replicate 1200 (CHR ''['')
   \<and> json_loads (recursion_limit deep_settings_world)
        (settings_value deep_settings_world ''last_project_files'' ''[]'') = Inl RecursionError
   \<and> load_settings deep_settings_world = (Raised RecursionError, deep_settings_world)
   \<and> last_project_files deep_settings_world =
        [Info \<lparr>path = ''C:/projects/intro.aep'', created_by = JStr ''marty''\<rparr>,
         Info \<lparr>path = ''C:/projects/gone.aep'', created_by = JStr ''bob''\<rparr>]"
proof -
  have t: "settings_value deep_settings_world ''last_project_files'' ''[]'' = deep_text"
    by (simp add: deep_settings_world_def settings_value_def)
  have j: "json_loads (recursion_limit deep_settings_world)
        (settings_value deep_settings_world ''last_project_files'' ''[]'') = Inl RecursionError"
    by (simp only: t demo_limit deep_text_raises)
  then have "load_project_files (recursion_limit deep_settings_world)
        (settings_value deep_settings_world ''last_project_files'' ''[]'') = Inl RecursionError"
    by (simp add: load_project_files_def)
  then have l: "load_settings deep_settings_world = (Raised RecursionError, deep_settings_world)"
    by (rule load_settings_projects_raise)
  have f: "last_project_files deep_settings_world =
        [Info \<lparr>path = ''C:/projects/intro.aep'', created_by = JStr ''marty''\<rparr>,
         Info \<lparr>path = ''C:/projects/gone.aep'', created_by = JStr ''bob''\<rparr>]"
    by (simp add: deep_settings_world_def demo_files)
  show ?thesis using t j l f by (simp only: deep_text_def)
qed


lemma and_then_save_settings_fields:
  "last_project_files (snd (and_then r save_settings)) = last_project_files (snd r)"
  "last_projects_table (snd (and_then r save_settings)) = last_projects_table (snd r)"
  "imported_assets (snd (and_then r save_settings)) = imported_assets (snd r)"
  "fs (snd (and_then r save_settings)) = fs (snd r)"
  by (simp_all add: and_then_cases save_settings_fields split: outcome.splits)

lemma isfile_exists: "isfile f p \<Longrightarrow> path_exists f p"
  by (auto simp: isfile_def path_exists_def split: option.splits)

lemma os_remove_file: "isfile f p \<Longrightarrow> os_remove f p = Inr (f(p := None))"
  by (auto simp: isfile_def os_remove_def split: option.splits node.splits)

lemma delete_project_v3_removed:
  assumes i: "0 \<le> index" "index < int (length (last_project_files w))"
    and e: "last_project_files w ! nat index = Info p"
    and f: "isfile (fs w) (Path (path p))"
  shows "\<exists>d. delete_project_v3 index Yes w =
     (Returned,
      (snd (and_then
              (populate_last_projects_table
                 (w\<lparr>fs := (fs w)(Path (path p) := None),
                    last_project_files := del_index (nat index) (last_project_files w)\<rparr>))
              save_settings))\<lparr>dialogs := d\<rparr>)"
proof -
  let ?r = "and_then
              (populate_last_projects_table
                 (w\<lparr>fs := (fs w)(Path (path p) := None),
                    last_project_files := del_index (nat index) (last_project_files w)\<rparr>))
              save_settings"
  obtain o' w1 where r: "?r = (o', w1)" by (cases ?r)
  have "delete_project_v3 index Yes w =
      (case ?r of
         (Raised e, w1) \<Rightarrow> (Returned, report_delete_error e w1)
       | (Returned, w1) \<Rightarrow>
           (Returned,
            w1\<lparr>dialogs := dialogs w1 @
                 [Information ''Success'' ''The project has been successfully deleted.'']\<rparr>))"
    using i e isfile_exists [OF f] os_remove_file [OF f]
    by (simp add: delete_project_v3_def)
  then show ?thesis using r
    by (cases o') (auto simp: report_delete_error_def)
qed

lemma row_on_disk_path:
  "row_on_disk f rw \<Longrightarrow> \<exists>q. row_path rw = Some q \<and> path_exists f (Path q)"
  by (auto simp: row_on_disk_def split: option.splits)

text \<open>
  Claim C5. In \<^verbatim>\<open>py_ae_v3.py\<close>, for a valid index of a project record:
  any answer other than Yes leaves the whole state as it was; when the file of the record
  no longer exists only a notice is shown; when the file is there it is removed from the
  file system, no row of the rebuilt table shows its path, and the list becomes the
  entries other than the deleted one whose file exists, so the record is gone from it.
  In \<^verbatim>\<open>py_ae.py\<close>, for a row that shows a path: any answer other than Yes
  and a missing file leave the state as it was, and otherwise the file and the row are
  removed.
\<close>

theorem delete_project_effects:
  "(0 \<le> index \<and> index < int (length (last_project_files w))
      \<and> last_project_files w ! nat index = Info p \<longrightarrow>
      (confirmation \<noteq> Yes \<longrightarrow> delete_project_v3 index confirmation w = (Returned, w))
    \<and> (\<not> path_exists (fs w) (Path (path p)) \<longrightarrow>
         delete_project_v3 index Yes w =
           (Returned,
            w\<lparr>dialogs := dialogs w @
                 [Information ''File Not Found'' ''The project file does not exist.'']\<rparr>))
    \<and> (isfile (fs w) (Path (path p)) \<longrightarrow>
         fst (delete_project_v3 index Yes w) = Returned
       \<and> fs (snd (delete_project_v3 index Yes w)) = (fs w)(Path (path p) := None)
       \<and> (\<forall>rw \<in> set (last_projects_table (snd (delete_project_v3 index Yes w))).
             row_path rw \<noteq> Some (Path (path p)))
       \<and> ((\<forall>e \<in> set (last_project_files w). is_info e) \<longrightarrow>
            last_project_files (snd (delete_project_v3 index Yes w))
              = filter (entry_on_disk ((fs w)(Path (path p) := None)))
                  (del_index (nat index) (last_project_files w))
          \<and> Info p \<notin> set (last_project_files (snd (delete_project_v3 index Yes w))))))
   \<and> (confirmation \<noteq> Yes \<longrightarrow> delete_project_py_ae row_index confirmation w = (Returned, w))
   \<and> (item (projects_table w) row_index 1 = Some shown_path \<longrightarrow>
        (\<not> path_exists (fs w) (Path shown_path) \<longrightarrow> snd (delete_project_py_ae row_index Yes w) = w)
      \<and> (isfile (fs w) (Path shown_path) \<longrightarrow>
           delete_project_py_ae row_index Yes w =
             (Returned,
              w\<lparr>fs := (fs w)(Path shown_path := None),
                projects_table := del_index (nat row_index) (projects_table w)\<rparr>)))"
proof -
  have v3: "(confirmation \<noteq> Yes \<longrightarrow> delete_project_v3 index confirmation w = (Returned, w))
    \<and> (\<not> path_exists (fs w) (Path (path p)) \<longrightarrow>
         delete_project_v3 index Yes w =
           (Returned,
            w\<lparr>dialogs := dialogs w @
                 [Information ''File Not Found'' ''The project file does not exist.'']\<rparr>))
    \<and> (isfile (fs w) (Path (path p)) \<longrightarrow>
         fst (delete_project_v3 index Yes w) = Returned
       \<and> fs (snd (delete_project_v3 index Yes w)) = (fs w)(Path (path p) := None)
       \<and> (\<forall>rw \<in> set (last_projects_table (snd (delete_project_v3 index Yes w))).
             row_path rw \<noteq> Some (Path (path p)))
       \<and> ((\<forall>e \<in> set (last_project_files w). is_info e) \<longrightarrow>
            last_project_files (snd (delete_project_v3 index Yes w))
              = filter (entry_on_disk ((fs w)(Path (path p) := None)))
                  (del_index (nat index) (last_project_files w))
          \<and> Info p \<notin> set (last_project_files (snd (delete_project_v3 index Yes w)))))"
    if i: "0 \<le> index" "index < int (length (last_project_files w))"
      and e: "last_project_files w ! nat index = Info p"
  proof -
    let ?f = "(fs w)(Path (path p) := None)"
    let ?w = "w\<lparr>fs := ?f, last_project_files := del_index (nat index) (last_project_files w)\<rparr>"
    have no: "delete_project_v3 index confirmation w = (Returned, w)" if "confirmation \<noteq> Yes"
      using that i e by (simp add: delete_project_v3_def)
    have missing: "delete_project_v3 index Yes w =
           (Returned,
            w\<lparr>dialogs := dialogs w @
                 [Information ''File Not Found'' ''The project file does not exist.'']\<rparr>)"
      if "\<not> path_exists (fs w) (Path (path p))"
      using that i e by (simp add: delete_project_v3_def report_delete_error_def)
    have removed: "fst (delete_project_v3 index Yes w) = Returned
       \<and> fs (snd (delete_project_v3 index Yes w)) = ?f
       \<and> (\<forall>rw \<in> set (last_projects_table (snd (delete_project_v3 index Yes w))).
             row_path rw \<noteq> Some (Path (path p)))
       \<and> ((\<forall>e \<in> set (last_project_files w). is_info e) \<longrightarrow>
            last_project_files (snd (delete_project_v3 index Yes w))
              = filter (entry_on_disk ?f) (del_index (nat index) (last_project_files w))
          \<and> Info p \<notin> set (last_project_files (snd (delete_project_v3 index Yes w))))"
      if f: "isfile (fs w) (Path (path p))"
    proof -
      from delete_project_v3_removed [OF i e f] obtain d where
        d: "delete_project_v3 index Yes w =
              (Returned, (snd (and_then (populate_last_projects_table ?w) save_settings))\<lparr>dialogs := d\<rparr>)"
        by blast
      have ret: "fst (delete_project_v3 index Yes w) = Returned" by (simp add: d)
      have files: "fs (snd (delete_project_v3 index Yes w)) = ?f"
        by (simp add: d and_then_save_settings_fields populate_fs)
      have tbl: "last_projects_table (snd (delete_project_v3 index Yes w))
          = last_projects_table (snd (populate_last_projects_table ?w))"
        by (simp add: d and_then_save_settings_fields)
      have rows: "row_path rw \<noteq> Some (Path (path p))"
        if "rw \<in> set (last_projects_table (snd (delete_project_v3 index Yes w)))" for rw
      proof
        assume q: "row_path rw = Some (Path (path p))"
        have "row_on_disk ?f rw" using that tbl populate_rows_on_disk [of ?w] by simp
        from row_on_disk_path [OF this] q have "path_exists ?f (Path (Path (path p)))" by auto
        then show False by (simp add: Path_idem path_exists_def)
      qed
      have list: "last_project_files (snd (delete_project_v3 index Yes w))
              = filter (entry_on_disk ?f) (del_index (nat index) (last_project_files w))
          \<and> Info p \<notin> set (last_project_files (snd (delete_project_v3 index Yes w)))"
        if info: "\<forall>e \<in> set (last_project_files w). is_info e"
      proof -
        have "set (del_index (nat index) (last_project_files w)) \<subseteq> set (last_project_files w)"
          by (auto simp: del_index_def dest: in_set_takeD in_set_dropD)
        then have "\<forall>e \<in> set (last_project_files ?w). is_info e" using info by auto
        from populate_files_info [OF this]
        have l: "last_project_files (snd (delete_project_v3 index Yes w))
              = filter (entry_on_disk ?f) (del_index (nat index) (last_project_files w))"
          by (simp add: d and_then_save_settings_fields)
        have "\<not> entry_on_disk ?f (Info p)" by (simp add: path_exists_def)
        then show ?thesis using l by auto
      qed
      show ?thesis using ret files rows list by blast
    qed
    show ?thesis using no missing removed by blast
  qed
  have ae_no: "delete_project_py_ae row_index confirmation w = (Returned, w)"
    if "confirmation \<noteq> Yes"
    using that by (simp add: delete_project_py_ae_def)
  have ae: "(\<not> path_exists (fs w) (Path shown_path) \<longrightarrow> snd (delete_project_py_ae row_index Yes w) = w)
      \<and> (isfile (fs w) (Path shown_path) \<longrightarrow>
           delete_project_py_ae row_index Yes w =
             (Returned,
              w\<lparr>fs := (fs w)(Path shown_path := None),
                projects_table := del_index (nat row_index) (projects_table w)\<rparr>))"
    if t: "item (projects_table w) row_index 1 = Some shown_path"
  proof -
    have range: "0 \<le> row_index \<and> nat row_index < length (projects_table w)"
      using t by (auto simp: item_def split: if_splits)
    have "snd (delete_project_py_ae row_index Yes w) = w"
      if "\<not> path_exists (fs w) (Path shown_path)"
      using that t by (simp add: delete_project_py_ae_def)
    moreover have "delete_project_py_ae row_index Yes w =
             (Returned,
              w\<lparr>fs := (fs w)(Path shown_path := None),
                projects_table := del_index (nat row_index) (projects_table w)\<rparr>)"
      if f: "isfile (fs w) (Path shown_path)"
      using t range isfile_exists [OF f] os_remove_file [OF f]
      by (auto simp: delete_project_py_ae_def remove_row_py_ae_def)
    ultimately show ?thesis by blast
  qed
  show ?thesis using v3 ae_no ae by blast
qed

text \<open>
  An instance on the example world: answering No, deleting the record of a missing file
  and deleting the record of an existing file, in both versions of the program.
\<close>

theorem delete_project_effects_witness:
  "delete_project_v3 0 No demo_world = (Returned, demo_world)
   \<and> delete_project_v3 1 Yes demo_world =
       (Returned,
        demo_world\<lparr>dialogs := [Information ''File Not Found'' ''The project file does not exist.'']\<rparr>)
   \<and> isfile (fs demo_world) ''C:/projects/intro.aep''
   \<and> fs (snd (delete_project_v3 0 Yes demo_world)) ''C:/projects/intro.aep'' = None
   \<and> last_project_files (snd (delete_project_v3 0 Yes demo_world)) = []
   \<and> delete_project_py_ae 0 Cancel browser_world = (Returned, browser_world)
   \<and> snd (delete_project_py_ae 1 Yes browser_world) = browser_world
   \<and> projects_table (snd (delete_project_py_ae 0 Yes browser_world))
       = [new_row [Some ''old'', Some ''C:/projects/gone.aep'', Some ''2023-01-01 09:00:00'',
                   Some ''bob'', None]]
   \<and> fs (snd (delete_project_py_ae 0 Yes browser_world)) ''C:/projects/intro.aep'' = None"
proof -
  let ?intro = "\<lparr>path = ''C:/projects/intro.aep'', created_by = JStr ''marty''\<rparr>"
  let ?gone = "\<lparr>path = ''C:/projects/gone.aep'', created_by = JStr ''bob''\<rparr>"
  have f: "fs demo_world = demo_fs" "fs browser_world = demo_fs"
    by (simp_all add: demo_world_def browser_world_def)
  have d: "dialogs demo_world = []" by (simp add: demo_world_def)
  have isf: "isfile demo_fs ''C:/projects/intro.aep''"
    by (simp add: isfile_def demo_fs_lookup)
  have gone: "\<not> path_exists demo_fs ''C:/projects/gone.aep''"
    by (simp add: path_exists_def demo_fs_lookup)
  have info: "\<forall>e \<in> set (last_project_files demo_world). is_info e"
    by (simp add: demo_files)
  note inst_a = delete_project_effects [where w = demo_world and index = 0 and p = "?intro" and confirmation = No
       and row_index = 0 and shown_path = "''C:/projects/intro.aep''"]
  note inst_b = delete_project_effects [where w = demo_world and index = 1 and p = "?gone" and confirmation = No
       and row_index = 0 and shown_path = "''C:/projects/intro.aep''"]
  have no: "delete_project_v3 0 No demo_world = (Returned, demo_world)"
    using inst_a by (simp add: demo_files)
  have missing: "delete_project_v3 1 Yes demo_world =
       (Returned,
        demo_world\<lparr>dialogs := [Information ''File Not Found'' ''The project file does not exist.'']\<rparr>)"
    using inst_b gone by (simp add: demo_files f Path_def d)
  have del: "fs (snd (delete_project_v3 0 Yes demo_world)) = demo_fs(''C:/projects/intro.aep'' := None)"
    "last_project_files (snd (delete_project_v3 0 Yes demo_world))
       = filter (entry_on_disk (demo_fs(''C:/projects/intro.aep'' := None)))
           (del_index 0 (last_project_files demo_world))"
    using inst_a isf info by (simp_all add: demo_files f Path_def)
  have list: "last_project_files (snd (delete_project_v3 0 Yes demo_world)) = []"
    using gone by (simp add: del demo_files del_index_def Path_def path_exists_def)
  note inst_c = delete_project_effects [where w = browser_world and index = 0 and p = "?intro" and confirmation = Cancel
       and row_index = 0 and shown_path = "''C:/projects/intro.aep''"]
  note inst_d = delete_project_effects [where w = browser_world and index = 0 and p = "?intro" and confirmation = Cancel
       and row_index = 1 and shown_path = "''C:/projects/gone.aep''"]
  have cancel: "delete_project_py_ae 0 Cancel browser_world = (Returned, browser_world)"
    using inst_c by simp
  have i0: "item (projects_table browser_world) 0 1 = Some ''C:/projects/intro.aep''"
    and i1: "item (projects_table browser_world) 1 1 = Some ''C:/projects/gone.aep''"
    by (simp_all add: browser_world_def item_def new_row_def)
  have ae_missing: "snd (delete_project_py_ae 1 Yes browser_world) = browser_world"
    using inst_d i1 gone by (simp add: f Path_def)
  have ae_del: "delete_project_py_ae 0 Yes browser_world =
       (Returned,
        browser_world\<lparr>fs := demo_fs(''C:/projects/intro.aep'' := None),
          projects_table := del_index 0 (projects_table browser_world)\<rparr>)"
    using inst_c i0 isf by (simp add: f Path_def)
  have ae_tbl: "projects_table (snd (delete_project_py_ae 0 Yes browser_world))
       = [new_row [Some ''old'', Some ''C:/projects/gone.aep'', Some ''2023-01-01 09:00:00'',
                   Some ''bob'', None]]"
    by (subst ae_del) (simp add: browser_world_def del_index_def)
  show ?thesis
    using no missing isf del(1) list cancel ae_missing ae_tbl by (simp add: f ae_del)
qed

lemma save_settings_records:
  assumes "last_project_files w = map Info ps"
  shows "save_settings w =
     (Returned,
      w\<lparr>registry := (registry w)
           (''last_project_files'' \<mapsto> json_dumps (JArr (map project_json ps)),
            ''imported_assets'' \<mapsto> json_dumps (imported_assets w))\<rparr>)"
proof -
  have "collect (map serialize_project (map Info ps)) = Inr (map project_json ps)"
    by (induction ps) (simp_all add: project_json_def)
  then have "collect (map serialize_project (last_project_files w)) = Inr (map project_json ps)"
    using assms by simp
  then show ?thesis by (simp add: save_settings_def)
qed

lemma project_of_project_json:
  "path p \<noteq> [] \<Longrightarrow> project_of_json (project_json p) = Inr (Info p)"
  by (simp add: project_json_def Path_def)

lemma load_project_files_saved:
  assumes "\<forall>p \<in> set ps. path p \<noteq> [] \<and> wf_json (created_by p)"
    and lim: "within_limits limit (JArr (map project_json ps))"
  shows "load_project_files limit (json_dumps (JArr (map project_json ps))) = Inr (map Info ps)"
proof -
  have wf: "wf_json (JArr (map project_json ps))"
    using assms(1) by (auto simp: project_json_def)
  have d: "filter is_dict (map project_json ps) = map project_json ps"
    by (induction ps) (simp_all add: project_json_def)
  have c: "collect (map project_of_json (map project_json ps)) = Inr (map Info ps)"
    using assms(1) by (induction ps) (simp_all add: project_of_project_json)
  have "load_project_files limit (json_dumps (JArr (map project_json ps)))
      = collect (map project_of_json (filter is_dict (map project_json ps)))"
    unfolding load_project_files_def json_roundtrip [OF wf lim] by simp
  then show ?thesis by (simp only: d c)
qed

lemma filter_on_disk_records:
  "\<forall>p \<in> set ps. path p \<noteq> [] \<Longrightarrow>
     filter (entry_on_disk f) (map Info ps) = map Info (filter (\<lambda>p. path_exists f (path p)) ps)"
  by (induction ps) (simp_all add: Path_def)

lemma load_imported_assets_saved:
  "wf_json v \<Longrightarrow> within_limits limit v \<Longrightarrow> load_imported_assets limit (json_dumps v) = Inr v"
  unfolding load_imported_assets_def by (simp add: json_roundtrip del: json_dumps.simps)

lemma save_settings_limit:
  "last_project_files w = map Info ps \<Longrightarrow> recursion_limit (snd (save_settings w)) = recursion_limit w"
  by (simp add: save_settings_records)

lemma save_then_load_lists:
  assumes l: "last_project_files w = map Info ps"
    and p: "\<forall>p \<in> set ps. path p \<noteq> [] \<and> wf_json (created_by p)"
    and a: "wf_json (imported_assets w)"
    and lp: "within_limits (recursion_limit w) (JArr (map project_json ps))"
    and la: "within_limits (recursion_limit w) (imported_assets w)"
  shows "last_project_files (snd (load_settings (snd (save_settings w))))
           = map Info (filter (\<lambda>p. path_exists (fs w) (path p)) ps)"
    and "imported_assets (snd (load_settings (snd (save_settings w)))) = imported_assets w"
proof -
  let ?w = "snd (save_settings w)"
  have pt: "settings_value ?w ''last_project_files'' ''[]'' = json_dumps (JArr (map project_json ps))"
    and at: "settings_value ?w ''imported_assets'' ''[]'' = json_dumps (imported_assets w)"
    and f: "fs ?w = fs w"
    by (simp_all add: save_settings_records [OF l] settings_value_def)
  note rl = save_settings_limit [OF l]
  have projects: "load_project_files (recursion_limit ?w)
      (settings_value ?w ''last_project_files'' ''[]'') = Inr (map Info ps)"
    using load_project_files_saved [OF p lp] by (simp only: pt rl)
  have assets: "load_imported_assets (recursion_limit ?w)
      (settings_value ?w ''imported_assets'' ''[]'') = Inr (imported_assets w)"
    using load_imported_assets_saved [OF a la] by (simp only: at rl)
  have ne: "\<forall>p \<in> set ps. path p \<noteq> []" using p by simp
  show "last_project_files (snd (load_settings ?w))
           = map Info (filter (\<lambda>p. path_exists (fs w) (path p)) ps)"
    using load_settings_lists(1) [OF projects assets] filter_on_disk_records [OF ne] by (simp add: f)
  show "imported_assets (snd (load_settings ?w)) = imported_assets w"
    using load_settings_lists(2) [OF projects assets] by simp
qed

lemma asset_record_row:
  "asset_record a \<Longrightarrow>
     \<exists>n p lm who. asset_arguments a = Inr (n, p, JStr lm, JStr who)"
  by (cases a) (auto split: option.splits json.splits)

lemma add_asset_rows_records:
  "\<forall>a \<in> set xs. asset_record a \<Longrightarrow> fst (add_asset_rows xs w) = Returned"
proof (induction xs arbitrary: w)
  case Nil
  then show ?case by simp
next
  case (Cons a xs)
  then have "asset_record a" by simp
  from asset_record_row [OF this] obtain n p lm who where
    "asset_arguments a = Inr (n, p, JStr lm, JStr who)" by blast
  then show ?case using Cons by (simp add: populate_imported_assets_table_def)
qed

lemma save_then_load_returns:
  assumes l: "last_project_files w = map Info ps"
    and p: "\<forall>p \<in> set ps. path p \<noteq> [] \<and> (\<exists>who. created_by p = JStr who)"
    and a: "imported_assets w = JArr xs" "wf_json (JArr xs)" "\<forall>a \<in> set xs. asset_record a"
    and lp: "within_limits (recursion_limit w) (JArr (map project_json ps))"
    and la: "within_limits (recursion_limit w) (JArr xs)"
  shows "fst (load_settings (snd (save_settings w))) = Returned"
proof -
  let ?w = "snd (save_settings w)"
  have p': "\<forall>p \<in> set ps. path p \<noteq> [] \<and> wf_json (created_by p)" using p by auto
  have pt: "settings_value ?w ''last_project_files'' ''[]'' = json_dumps (JArr (map project_json ps))"
    and at: "settings_value ?w ''imported_assets'' ''[]'' = json_dumps (JArr xs)"
    by (simp_all add: save_settings_records [OF l] settings_value_def a(1) del: json_dumps.simps)
  note rl = save_settings_limit [OF l]
  have projects: "load_project_files (recursion_limit ?w)
      (settings_value ?w ''last_project_files'' ''[]'') = Inr (map Info ps)"
    using load_project_files_saved [OF p' lp] by (simp only: pt rl)
  have assets: "load_imported_assets (recursion_limit ?w)
      (settings_value ?w ''imported_assets'' ''[]'') = Inr (JArr xs)"
    using load_imported_assets_saved [OF a(2) la] by (simp only: at rl)
  let ?w2 = "?w\<lparr>last_project_files := map Info ps, imported_assets := JArr xs,
                last_projects_table := [], imported_assets_table := []\<rparr>"
  have "\<forall>e \<in> set (last_project_files ?w2). named_creator e" using p by auto
  then have r: "fst (populate_last_projects_table ?w2) = Returned"
    by (rule populate_named_returns)
  have "imported_assets (snd (populate_last_projects_table ?w2)) = JArr xs"
    by (simp add: populate_imported_assets)
  then show ?thesis
    using r add_asset_rows_records [OF a(3)]
    by (simp add: load_settings_unfold [OF projects assets] and_then_cases)
qed

text \<open>
  Claim C1, as the code has it. For a list of project records with non-empty paths and an
  imported-asset value that both survive JSON (distinct keys, and what is saved within the
  limits of the decoder), \<^verbatim>\<open>save_settings\<close> returns and
  \<^verbatim>\<open>load_settings\<close> afterwards restores the imported assets unchanged and the
  project records whose file exists, in order, with the same path and creator. When every
  file exists the list of projects is restored unchanged. The load returns normally when the
  creators are strings and the assets are asset records.
\<close>

theorem save_then_load_settings:
  assumes "last_project_files w = map Info ps"
    and "\<forall>p \<in> set ps. path p \<noteq> [] \<and> wf_json (created_by p)"
    and "wf_json (imported_assets w)"
    and "within_limits (recursion_limit w) (JArr (map project_json ps))"
    and "within_limits (recursion_limit w) (imported_assets w)"
  shows "fst (save_settings w) = Returned
    \<and> last_project_files (snd (load_settings (snd (save_settings w))))
        = map Info (filter (\<lambda>p. path_exists (fs w) (path p)) ps)
    \<and> imported_assets (snd (load_settings (snd (save_settings w)))) = imported_assets w
    \<and> ((\<forall>p \<in> set ps. path_exists (fs w) (path p)) \<longrightarrow>
         last_project_files (snd (load_settings (snd (save_settings w)))) = last_project_files w)
    \<and> ((\<forall>p \<in> set ps. \<exists>who. created_by p = JStr who)
        \<and> (\<exists>xs. imported_assets w = JArr xs \<and> (\<forall>a \<in> set xs. asset_record a)) \<longrightarrow>
         fst (load_settings (snd (save_settings w))) = Returned)"
proof -
  have s: "fst (save_settings w) = Returned"
    by (simp add: save_settings_records [OF assms(1)])
  note lists = save_then_load_lists [OF assms]
  have all: "last_project_files (snd (load_settings (snd (save_settings w)))) = last_project_files w"
    if "\<forall>p \<in> set ps. path_exists (fs w) (path p)"
  proof -
    have "filter (\<lambda>p. path_exists (fs w) (path p)) ps = ps" using that by simp
    then show ?thesis using lists(1) assms(1) by simp
  qed
  have ret: "fst (load_settings (snd (save_settings w))) = Returned"
    if t: "(\<forall>p \<in> set ps. \<exists>who. created_by p = JStr who)
        \<and> (\<exists>xs. imported_assets w = JArr xs \<and> (\<forall>a \<in> set xs. asset_record a))"
  proof -
    from t obtain xs where xs: "imported_assets w = JArr xs" "\<forall>a \<in> set xs. asset_record a"
      by blast
    have "\<forall>p \<in> set ps. path p \<noteq> [] \<and> (\<exists>who. created_by p = JStr who)"
      using t assms(2) by blast
    then show ?thesis
      using save_then_load_returns [OF assms(1) _ xs(1) _ xs(2) assms(4)] assms(3,5) xs(1) by simp
  qed
  show ?thesis using s lists all ret by blast
qed

text \<open>
  Claim C1 as stated does not hold: \<^verbatim>\<open>load_settings\<close> ends by repopulating
  the table, which prunes the records of missing files. In the example world the record of
  \<^verbatim>\<open>gone.aep\<close> is saved but does not come back.
\<close>

theorem save_then_load_settings_forgets_missing_files:
  "last_project_files demo_world =
     [Info \<lparr>path = ''C:/projects/intro.aep'', created_by = JStr ''marty''\<rparr>,
      Info \<lparr>path = ''C:/projects/gone.aep'', created_by = JStr ''bob''\<rparr>]
   \<and> fst (save_settings demo_world) = Returned
   \<and> last_project_files (snd (load_settings (snd (save_settings demo_world))))
       = [Info \<lparr>path = ''C:/projects/intro.aep'', created_by = JStr ''marty''\<rparr>]
   \<and> last_project_files (snd (load_settings (snd (save_settings demo_world))))
       \<noteq> last_project_files demo_world"
proof -
  let ?ps = "[\<lparr>path = ''C:/projects/intro.aep'', created_by = JStr ''marty''\<rparr>,
              \<lparr>path = ''C:/projects/gone.aep'', created_by = JStr ''bob''\<rparr>]"
  have l: "last_project_files demo_world = map Info ?ps" by (simp add: demo_files)
  have p: "\<forall>p \<in> set ?ps. path p \<noteq> [] \<and> wf_json (created_by p)" by simp
  have a: "wf_json (imported_assets demo_world)" by (simp add: demo_world_def)
  have lp: "within_limits (recursion_limit demo_world) (JArr (map project_json ?ps))"
    by (simp add: demo_world_def project_json_def)
  have la: "within_limits (recursion_limit demo_world) (imported_assets demo_world)"
    by (simp add: demo_world_def)
  have f: "fs demo_world = demo_fs" by (simp add: demo_world_def)
  have "last_project_files (snd (load_settings (snd (save_settings demo_world))))
       = [Info \<lparr>path = ''C:/projects/intro.aep'', created_by = JStr ''marty''\<rparr>]"
    using save_then_load_lists(1) [OF l p a lp la]
    by (simp add: f demo_fs_lookup path_exists_def)
  moreover have "fst (save_settings demo_world) = Returned"
    by (simp add: save_settings_records [OF l])
  ultimately show ?thesis by (simp add: demo_files)
qed

text \<open>
  An instance: a world whose only record has its file on disk gets both lists back.
\<close>

theorem save_then_load_settings_witness:
  "last_project_files saved_world
     = [Info \<lparr>path = ''C:/projects/intro.aep'', created_by = JStr ''marty''\<rparr>]
   \<and> path_exists (fs saved_world) ''C:/projects/intro.aep''
   \<and> last_project_files (snd (load_settings (snd (save_settings saved_world))))
       = last_project_files saved_world
   \<and> imported_assets (snd (load_settings (snd (save_settings saved_world))))
       = imported_assets saved_world
   \<and> fst (load_settings (snd (save_settings saved_world))) = Returned"
proof -
  let ?ps = "[\<lparr>path = ''C:/projects/intro.aep'', created_by = JStr ''marty''\<rparr>]"
  have l: "last_project_files saved_world = map Info ?ps" by (simp add: saved_world_def)
  have p: "\<forall>p \<in> set ?ps. path p \<noteq> [] \<and> wf_json (created_by p)" by simp
  have a: "wf_json (imported_assets saved_world)" by (simp add: saved_world_def)
  have f: "fs saved_world = demo_fs" by (simp add: saved_world_def demo_world_def)
  have e: "\<forall>p \<in> set ?ps. path_exists (fs saved_world) (path p)"
    by (simp add: f path_exists_def demo_fs_lookup)
  have n: "\<forall>p \<in> set ?ps. \<exists>who. created_by p = JStr who" by simp
  have r: "\<exists>xs. imported_assets saved_world = JArr xs \<and> (\<forall>a \<in> set xs. asset_record a)"
    by (simp add: saved_world_def)
  have lp: "within_limits (recursion_limit saved_world) (JArr (map project_json ?ps))"
    by (simp add: saved_world_def demo_world_def project_json_def)
  have la: "within_limits (recursion_limit saved_world) (imported_assets saved_world)"
    by (simp add: saved_world_def demo_world_def)
  note base = save_then_load_settings [OF l p a lp la]
  have "last_project_files (snd (load_settings (snd (save_settings saved_world))))
       = last_project_files saved_world"
    using base e by blast
  moreover have "imported_assets (snd (load_settings (snd (save_settings saved_world))))
       = imported_assets saved_world"
    using base by blast
  moreover have "fst (load_settings (snd (save_settings saved_world))) = Returned"
    using base n r by blast
  ultimately show ?thesis using l e by simp
qed


















lemma subprocess_run_cases:
  "subprocess_run ExitSuccess = None"
  "subprocess_run ExitFailure = Some CalledProcessError"
  "subprocess_run LaunchFailure = Some OSError"
  by (simp_all add: subprocess_run_def)

text \<open>
  Claim C7. In \<^verbatim>\<open>py_ae_v3.py\<close> the worker thread started for a command runs
  the argument list it was given, unchanged, and emits its signal once whatever the status
  of the subprocess. In \<^verbatim>\<open>py_ae.py\<close> the thread emits its signal once when
  the subprocess succeeds and when it exits with a non-zero status, but it runs the
  elements joined by spaces into one command line: an argument that contains a space is
  run as the same command line as the two arguments on either side of the space, so the
  elements are not kept apart.
\<close>

theorem worker_thread_runs_command:
  "threads (run_after_effects_command_async_v3 command w) = threads w @ [ArgList command]
   \<and> executed (AfterEffectsThread_run_v3 (AfterEffectsThread_v3 command) status) = ArgList command
   \<and> emitted (AfterEffectsThread_run_v3 (AfterEffectsThread_v3 command) status) = [Finished]
   \<and> threads (run_after_effects_command_async_py_ae command w)
        = threads w @ [CommandLine (join_with '' '' command)]
   \<and> executed (AfterEffectsThread_run_py_ae (AfterEffectsThread_py_ae command) status)
        = CommandLine (join_with '' '' command)
   \<and> (status \<noteq> LaunchFailure \<longrightarrow>
        emitted (AfterEffectsThread_run_py_ae (AfterEffectsThread_py_ae command) status)
          = [FinishedWith (status = ExitSuccess)])
   \<and> AfterEffectsThread_py_ae [a @ '' '' @ b, c] = AfterEffectsThread_py_ae [a, b, c]"
  by (cases status)
     (simp_all add: run_after_effects_command_async_v3_def AfterEffectsThread_v3_def
        AfterEffectsThread_run_v3_def run_after_effects_command_async_py_ae_def
        AfterEffectsThread_py_ae_def AfterEffectsThread_run_py_ae_def subprocess_run_cases)

text \<open>
  An instance: the command \<^verbatim>\<open>py_ae.py\<close> builds to open a project, whose
  first element is the installation path of After Effects under
  \<^verbatim>\<open>C:/Program Files\<close>.
\<close>

theorem worker_thread_runs_command_witness:
  "executed (AfterEffectsThread_run_py_ae
       (AfterEffectsThread_py_ae [after_effects_exe, ''C:/projects/intro.aep'']) ExitSuccess)
     = CommandLine
         ''C:/Program Files/Adobe/Adobe After Effects 2024/Support Files/AfterFX.exe C:/projects/intro.aep''
   \<and> AfterEffectsThread_py_ae [after_effects_exe, ''C:/projects/intro.aep'']
     = AfterEffectsThread_py_ae
         [''C:/Program'', ''Files/Adobe/Adobe After Effects 2024/Support Files/AfterFX.exe'',
          ''C:/projects/intro.aep'']
   \<and> emitted (AfterEffectsThread_run_py_ae
       (AfterEffectsThread_py_ae [after_effects_exe, ''C:/projects/intro.aep'']) ExitFailure)
     = [FinishedWith False]
   \<and> executed (AfterEffectsThread_run_v3
       (AfterEffectsThread_v3 [after_effects_exe, ''C:/projects/intro.aep'']) ExitFailure)
     = ArgList [after_effects_exe, ''C:/projects/intro.aep'']
   \<and> emitted (AfterEffectsThread_run_v3
       (AfterEffectsThread_v3 [after_effects_exe, ''C:/projects/intro.aep'']) ExitFailure)
     = [Finished]"
proof -
  let ?command = "[after_effects_exe, ''C:/projects/intro.aep'']"
  note ok = worker_thread_runs_command
          [where command = ?command and status = ExitSuccess
             and a = "''C:/Program''"
             and b = "''Files/Adobe/Adobe After Effects 2024/Support Files/AfterFX.exe''"
             and c = "''C:/projects/intro.aep''" and w = demo_world]
  note failed = worker_thread_runs_command
          [where command = ?command and status = ExitFailure
             and a = "''C:/Program''"
             and b = "''Files/Adobe/Adobe After Effects 2024/Support Files/AfterFX.exe''"
             and c = "''C:/projects/intro.aep''" and w = demo_world]
  have one: "executed (AfterEffectsThread_run_py_ae (AfterEffectsThread_py_ae ?command) ExitSuccess)
     = CommandLine
         ''C:/Program Files/Adobe/Adobe After Effects 2024/Support Files/AfterFX.exe C:/projects/intro.aep''"
  proof -
    have "executed (AfterEffectsThread_run_py_ae (AfterEffectsThread_py_ae ?command) ExitSuccess)
       = CommandLine (join_with '' '' ?command)"
      using ok by blast
    then show ?thesis by (simp add: after_effects_exe_def)
  qed
  have "AfterEffectsThread_py_ae
          [''C:/Program'' @ '' '' @ ''Files/Adobe/Adobe After Effects 2024/Support Files/AfterFX.exe'',
           ''C:/projects/intro.aep'']
     = AfterEffectsThread_py_ae
         [''C:/Program'', ''Files/Adobe/Adobe After Effects 2024/Support Files/AfterFX.exe'',
          ''C:/projects/intro.aep'']"
    using ok by blast
  then have two: "AfterEffectsThread_py_ae ?command
     = AfterEffectsThread_py_ae
         [''C:/Program'', ''Files/Adobe/Adobe After Effects 2024/Support Files/AfterFX.exe'',
          ''C:/projects/intro.aep'']"
    by (simp add: after_effects_exe_def)
  have three: "emitted (AfterEffectsThread_run_py_ae (AfterEffectsThread_py_ae ?command) ExitFailure)
     = [FinishedWith False]"
  proof -
    have "ExitFailure \<noteq> LaunchFailure \<longrightarrow>
        emitted (AfterEffectsThread_run_py_ae (AfterEffectsThread_py_ae ?command) ExitFailure)
          = [FinishedWith (ExitFailure = ExitSuccess)]"
      using failed by blast
    then show ?thesis by simp
  qed
  have four: "executed (AfterEffectsThread_run_v3 (AfterEffectsThread_v3 ?command) ExitFailure)
     = ArgList ?command"
    "emitted (AfterEffectsThread_run_v3 (AfterEffectsThread_v3 ?command) ExitFailure) = [Finished]"
    using failed by blast+
  show ?thesis
    using one two three four by blast
qed

lemma str_replace_char:
  "str_replace [c] new s = concat (map (\<lambda>x. if x = c then new else [x]) s)"
proof (induction s)
  case Nil
  show ?case by (subst str_replace.simps) simp
next
  case (Cons x s)
  show ?case by (subst str_replace.simps) (simp add: Cons)
qed

lemma mktemp_fresh:
  assumes "mktemp w suffix = Inr p"
  shows "\<not> path_exists (fs w) p" and "\<exists>stem. p = stem @ suffix"
proof -
  from assms obtain n where
    n: "find (\<lambda>n. \<not> path_exists (fs w) (os_path_join (tempdir w) (''tmp'' @ n @ suffix)))
          (candidate_names w) = Some n"
    and p: "p = os_path_join (tempdir w) (''tmp'' @ n @ suffix)"
    by (auto simp: mktemp_def split: option.splits)
  from n show "\<not> path_exists (fs w) p" unfolding p by (auto simp: find_Some_iff)
  show "\<exists>stem. p = stem @ suffix"
  proof (cases "tempdir w = [] \<or> is_sep (last (tempdir w))")
    case True
    then have "p = (tempdir w @ ''tmp'' @ n) @ suffix" by (simp add: p os_path_join_def)
    then show ?thesis by blast
  next
    case False
    then have "p = (tempdir w @ backslash # ''tmp'' @ n) @ suffix" by (simp add: p os_path_join_def)
    then show ?thesis by blast
  qed
qed

lemma write_script_result:
  assumes "mktemp w ''.jsx'' = Inr script" and "dir_ok (fs w) (dirname script)"
  shows "write_script body w = Inr (script, w\<lparr>fs := (fs w)(script \<mapsto> File body (clock w))\<rparr>)"
proof -
  have "\<not> path_exists (fs w) script" using mktemp_fresh(1) [OF assms(1)] .
  then have "\<not> isdir (fs w) script" by (auto simp: path_exists_def isdir_def)
  then show ?thesis using assms by (simp add: write_script_def write_file_def)
qed

text \<open>
  Claim C4. When \<^verbatim>\<open>tempfile.mktemp\<close> finds a name in an existing temporary
  directory, that name ends in \<^verbatim>\<open>.jsx\<close> and is the name of no file.
  \<^verbatim>\<open>py_ae_v3.py\<close> writes there the script for the asset path with every
  backslash doubled and starts a thread for the argument list of the executable,
  \<^verbatim>\<open>-r\<close> and the script file. \<^verbatim>\<open>py_ae.py\<close> writes the script
  for the path with every \<^verbatim>\<open>//\<close> replaced by \<^verbatim>\<open>////\<close>
  and starts a thread for the three arguments joined into one command line.
\<close>

theorem jsx_script_written_and_launched:
  assumes "mktemp w ''.jsx'' = Inr script" and "dir_ok (fs w) (dirname script)"
  shows "\<not> path_exists (fs w) script
    \<and> (\<exists>stem. script = stem @ ''.jsx'')
    \<and> execute_jsx_script_v3 aePath file_path w =
        (Returned,
         w\<lparr>fs := (fs w)(script \<mapsto> File (script_content (escape_backslashes file_path)) (clock w)),
           threads := threads w @ [ArgList [aePath, ''-r'', script]]\<rparr>)
    \<and> execute_jsx_script_py_ae aePath file_path w =
        (Returned,
         w\<lparr>fs := (fs w)(script \<mapsto>
                  File (script_content (str_replace ''//'' ''////'' file_path)) (clock w)),
           threads := threads w @ [CommandLine (aePath @ '' -r '' @ script)]\<rparr>)"
proof -
  have v3: "execute_jsx_script_v3 aePath file_path w =
        (Returned,
         w\<lparr>fs := (fs w)(script \<mapsto> File (script_content (escape_backslashes file_path)) (clock w)),
           threads := threads w @ [ArgList [aePath, ''-r'', script]]\<rparr>)"
    by (simp add: execute_jsx_script_v3_def write_script_result [OF assms] str_replace_char
        escape_backslashes_def run_after_effects_command_async_v3_def AfterEffectsThread_v3_def)
  have py_ae: "execute_jsx_script_py_ae aePath file_path w =
        (Returned,
         w\<lparr>fs := (fs w)(script \<mapsto>
                  File (script_content (str_replace ''//'' ''////'' file_path)) (clock w)),
           threads := threads w @ [CommandLine (aePath @ '' -r '' @ script)]\<rparr>)"
    by (simp add: execute_jsx_script_py_ae_def write_script_result [OF assms]
        run_after_effects_command_async_py_ae_def AfterEffectsThread_py_ae_def)
  show ?thesis
    using mktemp_fresh [OF assms(1)] v3 py_ae by blast
qed

lemma demo_mktemp: "mktemp demo_world ''.jsx'' = Inr demo_script"
  by (simp add: mktemp_def demo_world_def os_path_join_def is_sep_def backslash_def
      path_exists_def demo_fs_def demo_script_def)

lemma demo_script_dir: "dir_ok (fs demo_world) (dirname demo_script)"
  by (simp add: demo_script_def dirname_def is_sep_def backslash_def dir_ok_def isdir_def
      Path_def demo_world_def demo_fs_def)

lemma replace_slashes:
  "str_replace ''//'' ''////'' ''//server/share/clip.mov'' = ''////server/share/clip.mov''"
  "str_replace ''//'' ''////'' native_asset_path = native_asset_path"
  by (simp_all add: native_asset_path_def backslash_def) code_simp+

text \<open>
  An instance on the example world: in \<^verbatim>\<open>py_ae.py\<close> the script for a
  network path names a path with four leading slashes, the script for a path with a
  backslash keeps the backslash single, and the executable under
  \<^verbatim>\<open>C:/Program Files\<close> is part of one command line;
  \<^verbatim>\<open>py_ae_v3.py\<close> doubles the backslash and keeps the three arguments.
\<close>

theorem jsx_script_written_and_launched_witness:
  "mktemp demo_world ''.jsx'' = Inr demo_script
   \<and> \<not> path_exists (fs demo_world) demo_script
   \<and> execute_jsx_script_py_ae after_effects_exe ''//server/share/clip.mov'' demo_world =
       (Returned,
        demo_world\<lparr>fs := demo_fs(demo_script \<mapsto>
                       File (script_content ''////server/share/clip.mov'') 7),
          threads :=
            [CommandLine
               (''C:/Program Files/Adobe/Adobe After Effects 2024/Support Files/AfterFX.exe -r ''
                  @ demo_script)]\<rparr>)
   \<and> execute_jsx_script_py_ae after_effects_exe native_asset_path demo_world =
       (Returned,
        demo_world\<lparr>fs := demo_fs(demo_script \<mapsto> File (script_content native_asset_path) 7),
          threads :=
            [CommandLine
               (''C:/Program Files/Adobe/Adobe After Effects 2024/Support Files/AfterFX.exe -r ''
                  @ demo_script)]\<rparr>)
   \<and> execute_jsx_script_v3 after_effects_exe native_asset_path demo_world =
       (Returned,
        demo_world\<lparr>fs := demo_fs(demo_script \<mapsto>
                       File (script_content (''C:/assets'' @ [backslash, backslash] @ ''clip.mov'')) 7),
          threads := [ArgList [after_effects_exe, ''-r'', demo_script]]\<rparr>)"
proof -
  have f: "fs demo_world = demo_fs" "clock demo_world = 7" "threads demo_world = []"
    by (simp_all add: demo_world_def)
  have e: "escape_backslashes native_asset_path = ''C:/assets'' @ [backslash, backslash] @ ''clip.mov''"
    by (simp add: escape_backslashes_def native_asset_path_def backslash_def)
  note unc = jsx_script_written_and_launched
    [OF demo_mktemp demo_script_dir, where aePath = after_effects_exe
       and file_path = "''//server/share/clip.mov''"]
  note native = jsx_script_written_and_launched
    [OF demo_mktemp demo_script_dir, where aePath = after_effects_exe
       and file_path = native_asset_path]
  have fresh: "\<not> path_exists (fs demo_world) demo_script"
    using unc by blast
  have one: "execute_jsx_script_py_ae after_effects_exe ''//server/share/clip.mov'' demo_world =
       (Returned,
        demo_world\<lparr>fs := demo_fs(demo_script \<mapsto>
                       File (script_content ''////server/share/clip.mov'') 7),
          threads :=
            [CommandLine
               (''C:/Program Files/Adobe/Adobe After Effects 2024/Support Files/AfterFX.exe -r ''
                  @ demo_script)]\<rparr>)"
    using unc by (simp add: f replace_slashes after_effects_exe_def)
  have two: "execute_jsx_script_py_ae after_effects_exe native_asset_path demo_world =
       (Returned,
        demo_world\<lparr>fs := demo_fs(demo_script \<mapsto> File (script_content native_asset_path) 7),
          threads :=
            [CommandLine
               (''C:/Program Files/Adobe/Adobe After Effects 2024/Support Files/AfterFX.exe -r ''
                  @ demo_script)]\<rparr>)"
    using native by (simp add: f replace_slashes after_effects_exe_def)
  have three: "execute_jsx_script_v3 after_effects_exe native_asset_path demo_world =
       (Returned,
        demo_world\<lparr>fs := demo_fs(demo_script \<mapsto>
                       File (script_content (''C:/assets'' @ [backslash, backslash] @ ''clip.mov'')) 7),
          threads := [ArgList [after_effects_exe, ''-r'', demo_script]]\<rparr>)"
    using native by (simp add: f e)
  show ?thesis
    using demo_mktemp fresh one two three by blast
qed

lemma comprehension_name_matches:
  "Info p \<in> set es \<Longrightarrow> comprehension (name_matches query) es = Inl AttributeError"
proof (induction es)
  case Nil
  then show ?case by simp
next
  case (Cons e es)
  then show ?case by (cases e) auto
qed

lemma filter_assets_row:
  assumes "r < length (imported_assets_table w)"
    and "item (imported_assets_table w) (int r) 0 = Some name"
  shows "hidden (imported_assets_table (filter_assets w) ! r)
           = (\<not> contains (lower (asset_search_bar w)) (lower name))"
proof -
  from assms have "0 < length (cells (imported_assets_table w ! r))"
    and "cells (imported_assets_table w ! r) ! 0 = Some name"
    by (auto simp: item_def split: if_splits)
  then show ?thesis using assms(1)
    by (simp add: filter_assets_table filter_row_def)
qed

lemma filter_projects_v3_empty_query:
  assumes "registry w ''last_project_directory'' = None"
  shows "filter_projects_v3 [] w =
     (Returned,
      w\<lparr>last_project_files := [], last_projects_table := [],
        registry := (registry w)
          (''last_project_files'' \<mapsto> ''[]'',
           ''imported_assets'' \<mapsto> json_dumps (imported_assets w))\<rparr>)"
  using assms
  by (simp add: filter_projects_v3_def load_all_projects_def populate_last_projects_table_def
      save_settings_def)

text \<open>
  Claim C2. \<^verbatim>\<open>filter_assets\<close> leaves a row that has a name item hidden
  exactly when the lowercased name does not contain the lowercased search text. In
  \<^verbatim>\<open>py_ae_v3.py\<close>, \<^verbatim>\<open>filter_projects\<close> with a non-empty query
  raises \<^verbatim>\<open>AttributeError\<close> as soon as the list holds a project record (a
  dictionary has no attribute \<^verbatim>\<open>name\<close>), and with the empty query, when
  no \<^verbatim>\<open>last_project_directory\<close> is stored, it empties the list and the table
  and saves the empty list. In \<^verbatim>\<open>py_ae.py\<close>, \<^verbatim>\<open>filter_projects\<close>
  changes nothing.
\<close>

theorem search_bars_filter:
  "(r < length (imported_assets_table w) \<and> item (imported_assets_table w) (int r) 0 = Some name \<longrightarrow>
      hidden (imported_assets_table (filter_assets w) ! r)
        = (\<not> contains (lower (asset_search_bar w)) (lower name)))
   \<and> (query \<noteq> [] \<and> Info p \<in> set (last_project_files w) \<longrightarrow>
        filter_projects_v3 query w = (Raised AttributeError, w))
   \<and> (registry w ''last_project_directory'' = None \<longrightarrow>
        filter_projects_v3 [] w =
          (Returned,
           w\<lparr>last_project_files := [], last_projects_table := [],
             registry := (registry w)
               (''last_project_files'' \<mapsto> ''[]'',
                ''imported_assets'' \<mapsto> json_dumps (imported_assets w))\<rparr>))
   \<and> filter_projects_py_ae query w = (Returned, w)"
proof -
  have "filter_projects_v3 query w = (Raised AttributeError, w)"
    if "query \<noteq> []" "Info p \<in> set (last_project_files w)"
    using that by (simp add: filter_projects_v3_def comprehension_name_matches)
  then show ?thesis
    using filter_assets_row [of r w name] filter_projects_v3_empty_query [of w]
    by (simp add: filter_projects_py_ae_def)
qed

text \<open>
  An instance on the example world: the asset row \<^verbatim>\<open>Clip.MOV\<close> is shown for
  the search text \<^verbatim>\<open>CLIP\<close> and hidden for \<^verbatim>\<open>wav\<close>; the query
  \<^verbatim>\<open>intro\<close> raises in \<^verbatim>\<open>py_ae_v3.py\<close> and the empty query
  forgets both project records.
\<close>

theorem search_bars_filter_witness:
  "last_project_files demo_world =
     [Info \<lparr>path = ''C:/projects/intro.aep'', created_by = JStr ''marty''\<rparr>,
      Info \<lparr>path = ''C:/projects/gone.aep'', created_by = JStr ''bob''\<rparr>]
   \<and> filter_projects_v3 ''intro'' demo_world = (Raised AttributeError, demo_world)
   \<and> last_project_files (snd (filter_projects_v3 [] demo_world)) = []
   \<and> registry (snd (filter_projects_v3 [] demo_world)) ''last_project_files'' = Some ''[]''
   \<and> filter_projects_py_ae ''intro'' demo_world = (Returned, demo_world)
   \<and> \<not> hidden (imported_assets_table (filter_assets (demo_world\<lparr>asset_search_bar := ''CLIP''\<rparr>)) ! 0)
   \<and> hidden (imported_assets_table (filter_assets (demo_world\<lparr>asset_search_bar := ''wav''\<rparr>)) ! 0)"
proof -
  let ?intro = "\<lparr>path = ''C:/projects/intro.aep'', created_by = JStr ''marty''\<rparr>"
  note projects = search_bars_filter
    [where w = demo_world and query = "''intro''" and p = ?intro and r = 0 and name = "''Clip.MOV''"]
  have q: "''intro'' \<noteq> []" by simp
  have m: "Info ?intro \<in> set (last_project_files demo_world)" by (simp add: demo_files)
  have d: "registry demo_world ''last_project_directory'' = None"
    by (simp add: demo_world_def demo_registry_def)
  have one: "filter_projects_v3 ''intro'' demo_world = (Raised AttributeError, demo_world)"
    using projects q m by blast
  have "filter_projects_v3 [] demo_world =
          (Returned,
           demo_world\<lparr>last_project_files := [], last_projects_table := [],
             registry := (registry demo_world)
               (''last_project_files'' \<mapsto> ''[]'',
                ''imported_assets'' \<mapsto> json_dumps (imported_assets demo_world))\<rparr>)"
    using projects d by blast
  then have two: "last_project_files (snd (filter_projects_v3 [] demo_world)) = []"
    "registry (snd (filter_projects_v3 [] demo_world)) ''last_project_files'' = Some ''[]''"
    by simp_all
  have three: "filter_projects_py_ae ''intro'' demo_world = (Returned, demo_world)"
    using projects by blast
  have t: "imported_assets_table (demo_world\<lparr>asset_search_bar := s\<rparr>) = example_table"
    "asset_search_bar (demo_world\<lparr>asset_search_bar := s\<rparr>) = s" for s
    by (simp_all add: demo_world_def)
  have i: "(0::nat) < length example_table" "item example_table (int 0) 0 = Some ''Clip.MOV''"
    by (simp_all add: example_table_def item_def)
  have c: "contains (lower ''CLIP'') (lower ''Clip.MOV'')" "\<not> contains (lower ''wav'') (lower ''Clip.MOV'')"
    by code_simp+
  have four: "\<not> hidden (imported_assets_table (filter_assets (demo_world\<lparr>asset_search_bar := ''CLIP''\<rparr>)) ! 0)"
    using search_bars_filter
      [where w = "demo_world\<lparr>asset_search_bar := ''CLIP''\<rparr>" and query = "''intro''" and p = ?intro
         and r = 0 and name = "''Clip.MOV''"] i c
    by (simp only: t) simp
  have five: "hidden (imported_assets_table (filter_assets (demo_world\<lparr>asset_search_bar := ''wav''\<rparr>)) ! 0)"
    using search_bars_filter
      [where w = "demo_world\<lparr>asset_search_bar := ''wav''\<rparr>" and query = "''intro''" and p = ?intro
         and r = 0 and name = "''Clip.MOV''"] i c
    by (simp only: t) simp
  show ?thesis
    using one two three four five by (simp add: demo_files)
qed

end
